theory Spec2Isabelle
  imports Complex_Main "HOL-Library.AList" "HOL-Library.Product_Lexorder"
begin

section \<open>Job statuses, events and the declarative state machine (models/job.ts)\<close>

text \<open>
  \<^verbatim>\<open>enum JobStatus\<close> and \<^verbatim>\<open>enum JobEvent\<close>. The event constructors carry the prefix
  \<open>EV_\<close> because \<^verbatim>\<open>COMPLETE_WITH_ERRORS\<close> names both a status and an event.
\<close>

datatype JobStatus =
  ACCEPTED | RUNNING | RUNNING_WITH_ERRORS | SUCCESSFUL | FAILED | CANCELED
  | PAUSED | PREVIEWING | COMPLETE_WITH_ERRORS

datatype JobEvent =
  EV_CANCEL | EV_COMPLETE | EV_COMPLETE_WITH_ERRORS | EV_FAIL | EV_PAUSE | EV_RESUME
  | EV_SKIP_PREVIEW | EV_START | EV_START_WITH_PREVIEW

text \<open>The string value of each enum member, as used in error messages.\<close>

fun statusString :: "JobStatus \<Rightarrow> string" where
  "statusString ACCEPTED = ''accepted''"
| "statusString RUNNING = ''running''"
| "statusString RUNNING_WITH_ERRORS = ''running_with_errors''"
| "statusString SUCCESSFUL = ''successful''"
| "statusString FAILED = ''failed''"
| "statusString CANCELED = ''canceled''"
| "statusString PAUSED = ''paused''"
| "statusString PREVIEWING = ''previewing''"
| "statusString COMPLETE_WITH_ERRORS = ''complete_with_errors''"

text \<open>
  One state node of \<^verbatim>\<open>createMachine({ states: ... })\<close>: its id, its \<^verbatim>\<open>meta\<close> entries, whether
  its \<^verbatim>\<open>type\<close> is \<^verbatim>\<open>'final'\<close>, and its \<^verbatim>\<open>on\<close> table (event, target) in source order.
  No state node of the job machine declares entry, exit or transition actions.
\<close>

record StateNode =
  node_id :: JobStatus
  defaultMessage :: string
  node_active :: bool
  node_final :: bool
  node_on :: "(JobEvent \<times> JobStatus) list"

fun stateNode :: "JobStatus \<Rightarrow> StateNode" where
  "stateNode ACCEPTED = \<lparr> node_id = ACCEPTED,
     defaultMessage = ''The job has been accepted and is waiting to be processed'',
     node_active = True, node_final = False,
     node_on = [(EV_START, RUNNING), (EV_START_WITH_PREVIEW, PREVIEWING)] \<rparr>"
| "stateNode RUNNING = \<lparr> node_id = RUNNING,
     defaultMessage = ''The job is being processed'',
     node_active = True, node_final = False,
     node_on = [(EV_COMPLETE, SUCCESSFUL), (EV_COMPLETE_WITH_ERRORS, COMPLETE_WITH_ERRORS),
                (EV_CANCEL, CANCELED), (EV_FAIL, FAILED), (EV_PAUSE, PAUSED)] \<rparr>"
| "stateNode RUNNING_WITH_ERRORS = \<lparr> node_id = RUNNING_WITH_ERRORS,
     defaultMessage = ''The job is being processed, but some items have failed processing'',
     node_active = True, node_final = False,
     node_on = [(EV_COMPLETE, SUCCESSFUL), (EV_COMPLETE_WITH_ERRORS, COMPLETE_WITH_ERRORS),
                (EV_CANCEL, CANCELED), (EV_FAIL, FAILED), (EV_PAUSE, PAUSED)] \<rparr>"
| "stateNode SUCCESSFUL = \<lparr> node_id = SUCCESSFUL,
     defaultMessage = ''The job has completed successfully'',
     node_active = False, node_final = True, node_on = [] \<rparr>"
| "stateNode COMPLETE_WITH_ERRORS = \<lparr> node_id = COMPLETE_WITH_ERRORS,
     defaultMessage = ''The job has completed with errors. See the errors field for more details'',
     node_active = False, node_final = True, node_on = [] \<rparr>"
| "stateNode FAILED = \<lparr> node_id = FAILED,
     defaultMessage = ''The job failed with an unknown error'',
     node_active = False, node_final = True,
     node_on = [(EV_FAIL, FAILED)] \<rparr>"
| "stateNode CANCELED = \<lparr> node_id = CANCELED,
     defaultMessage = ''The job was canceled'',
     node_active = False, node_final = True, node_on = [] \<rparr>"
| "stateNode PREVIEWING = \<lparr> node_id = PREVIEWING,
     defaultMessage = ''The job is generating a preview before auto-pausing'',
     node_active = True, node_final = False,
     node_on = [(EV_SKIP_PREVIEW, RUNNING), (EV_CANCEL, CANCELED), (EV_FAIL, FAILED),
                (EV_PAUSE, PAUSED)] \<rparr>"
| "stateNode PAUSED = \<lparr> node_id = PAUSED,
     defaultMessage = ''The job is paused and may be resumed using the provided link'',
     node_active = False, node_final = False,
     node_on = [(EV_SKIP_PREVIEW, RUNNING), (EV_RESUME, RUNNING), (EV_CANCEL, CANCELED),
                (EV_FAIL, FAILED)] \<rparr>"

text \<open>\<^verbatim>\<open>Object.keys(stateMachine.states)\<close>, in declaration order.\<close>

definition stateKeys :: "JobStatus list" where
  "stateKeys = [ACCEPTED, RUNNING, RUNNING_WITH_ERRORS, SUCCESSFUL, COMPLETE_WITH_ERRORS,
                FAILED, CANCELED, PREVIEWING, PAUSED]"

definition terminalStates :: "JobStatus list" where
  "terminalStates = map (\<lambda>k. node_id (stateNode k)) (filter (\<lambda>key. node_final (stateNode key)) stateKeys)"

definition activeJobStatuses :: "JobStatus list" where
  "activeJobStatuses = map (\<lambda>k. node_id (stateNode k)) (filter (\<lambda>key. node_active (stateNode key)) stateKeys)"

definition statesToDefaultMessages :: "JobStatus \<Rightarrow> string" where
  "statesToDefaultMessages s = defaultMessage (stateNode s)"

text \<open>
  The value \<^verbatim>\<open>stateMachine.transition(currentStatus, event)\<close> returns, as far as
  \<^verbatim>\<open>canTransition\<close> reads it: the state value and the \<^verbatim>\<open>changed\<close> flag. The finite-state
  library (xstate 4) documents \<^verbatim>\<open>changed\<close> as: the state is changed when its value is not equal
  to the previous value, or when it has new actions to execute. An event the current state
  does not list leaves the value as it is, with no actions. Every event of \<^verbatim>\<open>JobEvent\<close> is
  listed by some state, so the machine's \<^verbatim>\<open>strict\<close> mode never rejects one.
\<close>

record MachineState =
  st_value :: JobStatus
  st_actions :: "string list"
  st_changed :: bool

text \<open>
  The actions of a taken transition: the exit actions of the source, the transition's own
  actions and the entry actions of the target. The job machine declares none of them.
\<close>

definition transitionActions :: "JobStatus \<Rightarrow> JobEvent \<Rightarrow> JobStatus \<Rightarrow> string list" where
  "transitionActions source event target = []"

definition transition :: "JobStatus \<Rightarrow> JobEvent \<Rightarrow> MachineState" where
  "transition currentStatus event =
     (case map_of (node_on (stateNode currentStatus)) event of
        None \<Rightarrow> \<lparr> st_value = currentStatus, st_actions = [], st_changed = False \<rparr>
      | Some target \<Rightarrow>
          (let actions = transitionActions currentStatus event target
           in \<lparr> st_value = target, st_actions = actions,
                st_changed = (actions \<noteq> [] \<or> target \<noteq> currentStatus) \<rparr>))"

definition matches :: "MachineState \<Rightarrow> JobStatus \<Rightarrow> bool" where
  "matches state desiredStatus = (st_value state = desiredStatus)"

definition canTransition :: "JobStatus \<Rightarrow> JobStatus \<Rightarrow> JobEvent \<Rightarrow> bool" where
  "canTransition currentStatus desiredStatus event =
     (let state = transition currentStatus event
      in st_changed state \<and> matches state desiredStatus)"

text \<open>
  The transition table as section 4.1 of the specification words it (state, accepted events
  with their targets); written from the specification, to be compared with the machine
  above.
\<close>

fun spec_table :: "JobStatus \<Rightarrow> (JobEvent \<times> JobStatus) list" where
  "spec_table ACCEPTED = [(EV_START, RUNNING), (EV_START_WITH_PREVIEW, PREVIEWING)]"
| "spec_table RUNNING = [(EV_COMPLETE, SUCCESSFUL), (EV_COMPLETE_WITH_ERRORS, COMPLETE_WITH_ERRORS),
     (EV_CANCEL, CANCELED), (EV_FAIL, FAILED), (EV_PAUSE, PAUSED)]"
| "spec_table RUNNING_WITH_ERRORS = [(EV_COMPLETE, SUCCESSFUL),
     (EV_COMPLETE_WITH_ERRORS, COMPLETE_WITH_ERRORS), (EV_CANCEL, CANCELED), (EV_FAIL, FAILED),
     (EV_PAUSE, PAUSED)]"
| "spec_table PREVIEWING = [(EV_SKIP_PREVIEW, RUNNING), (EV_CANCEL, CANCELED), (EV_FAIL, FAILED),
     (EV_PAUSE, PAUSED)]"
| "spec_table PAUSED = [(EV_SKIP_PREVIEW, RUNNING), (EV_RESUME, RUNNING), (EV_CANCEL, CANCELED),
     (EV_FAIL, FAILED)]"
| "spec_table SUCCESSFUL = []"
| "spec_table COMPLETE_WITH_ERRORS = []"
| "spec_table CANCELED = []"
| "spec_table FAILED = [(EV_FAIL, FAILED)]"

definition spec_lists :: "JobStatus \<Rightarrow> JobEvent \<Rightarrow> bool" where
  "spec_lists s e = (e \<in> fst ` set (spec_table s))"

section \<open>Errors and \<^verbatim>\<open>validateTransition\<close>\<close>

datatype error = ConflictError string | TypeError string | StoreError string

definition validateTransition ::
  "JobStatus \<Rightarrow> JobStatus \<Rightarrow> JobEvent \<Rightarrow> string option \<Rightarrow> error + unit" where
  "validateTransition currentStatus desiredStatus event errorMessageArg =
     (let errorMessage = (case errorMessageArg of
            None \<Rightarrow> ''Job status cannot be updated from '' @ statusString currentStatus
                    @ '' to '' @ statusString desiredStatus @ ''.''
          | Some m \<Rightarrow> m)
      in if \<not> canTransition currentStatus desiredStatus event
         then Inl (ConflictError errorMessage) else Inr ())"

section \<open>The Job entity (models/job.ts)\<close>

text \<open>
  The fields of \<^verbatim>\<open>class Job\<close> that the operations below read or write. \<^verbatim>\<open>statesToMessages\<close>
  is the object keyed by status (an association list, at most one entry per key);
  \<^verbatim>\<open>originalStatus\<close> is \<open>None\<close> for a job that was not loaded from the database.
\<close>

record JobLink =
  link_id :: "nat option"
  href :: string
  rel :: string

record Job =
  jobID :: string
  username :: string
  requestId :: string
  status :: JobStatus
  originalStatus :: "JobStatus option"
  statesToMessages :: "(JobStatus \<times> string) list"
  progress :: int
  batchesCompleted :: int
  request :: string
  links :: "JobLink list"
  labels :: "string list"
  collectionIds :: "string list"

text \<open>
  \<^verbatim>\<open>getMessage(status)\<close>: \<^verbatim>\<open>this?.statesToMessages?.[status] || statesToDefaultMessages[status]\<close>;
  an absent or empty entry falls back to the default.
\<close>

definition getMessage :: "JobStatus \<Rightarrow> Job \<Rightarrow> string" where
  "getMessage st j =
     (case map_of (statesToMessages j) st of
        None \<Rightarrow> statesToDefaultMessages st
      | Some m \<Rightarrow> if m \<noteq> [] then m else statesToDefaultMessages st)"

text \<open>\<^verbatim>\<open>setMessage(message, status)\<close>: a falsy (empty) message changes nothing.\<close>

definition setMessage :: "string \<Rightarrow> JobStatus \<Rightarrow> Job \<Rightarrow> Job" where
  "setMessage message st j =
     (if message = [] then j
      else j\<lparr> statesToMessages := AList.update st message (statesToMessages j) \<rparr>)"

text \<open>
  \<^verbatim>\<open>updateStatus(status, message?)\<close>. The optional message is \<open>None\<close> for \<^verbatim>\<open>undefined\<close>; the
  setter \<^verbatim>\<open>this.message = message\<close> stores it under the status just assigned.
\<close>

definition updateStatus :: "JobStatus \<Rightarrow> string option \<Rightarrow> Job \<Rightarrow> Job" where
  "updateStatus st message j =
     (let j1 = j\<lparr> status := st \<rparr>;
          j2 = (case message of
                  None \<Rightarrow> j1
                | Some m \<Rightarrow> if m \<noteq> [] then setMessage m (status j1) j1 else j1)
      in if status j2 = SUCCESSFUL \<or> status j2 = COMPLETE_WITH_ERRORS
         then j2\<lparr> progress := 100 \<rparr> else j2)"

text \<open>
  The public mutators. Each returns the outcome of the call (\<open>Inl\<close> for a thrown error)
  together with the Job object as the call leaves it.
\<close>

definition pause :: "Job \<Rightarrow> (error + unit) \<times> Job" where
  "pause j =
     (case validateTransition (status j) PAUSED EV_PAUSE None of
        Inl e \<Rightarrow> (Inl e, j)
      | Inr _ \<Rightarrow> (Inr (), updateStatus PAUSED (Some (getMessage PAUSED j)) j))"

definition resume :: "Job \<Rightarrow> (error + unit) \<times> Job" where
  "resume j =
     (case validateTransition (status j) RUNNING EV_RESUME
             (Some (''Job status is '' @ statusString (status j)
                    @ '' - only paused jobs can be resumed.'')) of
        Inl e \<Rightarrow> (Inl e, j)
      | Inr _ \<Rightarrow> (Inr (), updateStatus RUNNING (Some (getMessage RUNNING j)) j))"

definition skipPreview :: "Job \<Rightarrow> (error + unit) \<times> Job" where
  "skipPreview j =
     (case validateTransition (status j) RUNNING EV_SKIP_PREVIEW
             (Some (''Job status is '' @ statusString (status j)
                    @ '' - only previewing jobs can skip preview.'')) of
        Inl e \<Rightarrow> (Inl e, j)
      | Inr _ \<Rightarrow> (Inr (), updateStatus RUNNING (Some (getMessage RUNNING j)) j))"

text \<open>
  \<^verbatim>\<open>fail\<close> and \<^verbatim>\<open>cancel\<close> have a default parameter (the status's default message), used when
  the argument is \<^verbatim>\<open>undefined\<close>; \<^verbatim>\<open>succeed\<close> and \<^verbatim>\<open>complete_with_errors\<close> pass the optional
  message on as it is.
\<close>

definition fail :: "string option \<Rightarrow> Job \<Rightarrow> (error + unit) \<times> Job" where
  "fail messageArg j =
     (let message = (case messageArg of None \<Rightarrow> statesToDefaultMessages FAILED | Some m \<Rightarrow> m)
      in case validateTransition (status j) FAILED EV_FAIL None of
           Inl e \<Rightarrow> (Inl e, j)
         | Inr _ \<Rightarrow> (Inr (), updateStatus FAILED (Some message) j))"

definition cancel :: "string option \<Rightarrow> Job \<Rightarrow> (error + unit) \<times> Job" where
  "cancel messageArg j =
     (let message = (case messageArg of None \<Rightarrow> statesToDefaultMessages CANCELED | Some m \<Rightarrow> m)
      in case validateTransition (status j) CANCELED EV_CANCEL None of
           Inl e \<Rightarrow> (Inl e, j)
         | Inr _ \<Rightarrow> (Inr (), updateStatus CANCELED (Some message) j))"

definition succeed :: "string option \<Rightarrow> Job \<Rightarrow> (error + unit) \<times> Job" where
  "succeed message j =
     (case validateTransition (status j) SUCCESSFUL EV_COMPLETE None of
        Inl e \<Rightarrow> (Inl e, j)
      | Inr _ \<Rightarrow> (Inr (), updateStatus SUCCESSFUL message j))"

definition complete_with_errors :: "string option \<Rightarrow> Job \<Rightarrow> (error + unit) \<times> Job" where
  "complete_with_errors message j =
     (case validateTransition (status j) COMPLETE_WITH_ERRORS EV_COMPLETE_WITH_ERRORS None of
        Inl e \<Rightarrow> (Inl e, j)
      | Inr _ \<Rightarrow> (Inr (), updateStatus COMPLETE_WITH_ERRORS message j))"

text \<open>
  The seven public mutators as one type, with the event each one feeds to the machine and
  the status it asks for; used to state properties of all of them at once.
\<close>

datatype mutator =
  Pause | Resume | SkipPreview | Fail "string option" | Cancel "string option"
  | Succeed "string option" | CompleteWithErrors "string option"

fun applyMutator :: "mutator \<Rightarrow> Job \<Rightarrow> (error + unit) \<times> Job" where
  "applyMutator Pause j = pause j"
| "applyMutator Resume j = resume j"
| "applyMutator SkipPreview j = skipPreview j"
| "applyMutator (Fail m) j = fail m j"
| "applyMutator (Cancel m) j = cancel m j"
| "applyMutator (Succeed m) j = succeed m j"
| "applyMutator (CompleteWithErrors m) j = complete_with_errors m j"

fun mutatorEvent :: "mutator \<Rightarrow> JobEvent" where
  "mutatorEvent Pause = EV_PAUSE"
| "mutatorEvent Resume = EV_RESUME"
| "mutatorEvent SkipPreview = EV_SKIP_PREVIEW"
| "mutatorEvent (Fail m) = EV_FAIL"
| "mutatorEvent (Cancel m) = EV_CANCEL"
| "mutatorEvent (Succeed m) = EV_COMPLETE"
| "mutatorEvent (CompleteWithErrors m) = EV_COMPLETE_WITH_ERRORS"

fun mutatorTarget :: "mutator \<Rightarrow> JobStatus" where
  "mutatorTarget Pause = PAUSED"
| "mutatorTarget Resume = RUNNING"
| "mutatorTarget SkipPreview = RUNNING"
| "mutatorTarget (Fail m) = FAILED"
| "mutatorTarget (Cancel m) = CANCELED"
| "mutatorTarget (Succeed m) = SUCCESSFUL"
| "mutatorTarget (CompleteWithErrors m) = COMPLETE_WITH_ERRORS"

text \<open>A message names a status when the status string occurs in it.\<close>

fun startsWith :: "string \<Rightarrow> string \<Rightarrow> bool" where
  "startsWith [] s = True"
| "startsWith (p # ps) [] = False"
| "startsWith (p # ps) (c # cs) = (p = c \<and> startsWith ps cs)"

fun includes_str :: "string \<Rightarrow> string \<Rightarrow> bool" where
  "includes_str p [] = (p = [])"
| "includes_str p (c # cs) = (startsWith p (c # cs) \<or> includes_str p cs)"

definition names_status :: "string \<Rightarrow> JobStatus \<Rightarrow> bool" where
  "names_status msg s = includes_str (statusString s) msg"

section \<open>Progress rollup (\<^verbatim>\<open>Job.updateProgress\<close>)\<close>

text \<open>
  The weights and step progresses are JavaScript numbers, IEEE 754 doubles, and every
  operation of the rollup rounds. The arithmetic of the runtime is therefore a parameter
  of \<open>updateProgress\<close>: the literals 0 and 1, \<^verbatim>\<open>+\<close>, \<^verbatim>\<open>*\<close>, \<^verbatim>\<open>/\<close>, \<^verbatim>\<open>>\<close>, \<^verbatim>\<open>Math.max\<close> and
  \<^verbatim>\<open>Math.floor\<close> on a type \<open>'n\<close> of numbers. \<^verbatim>\<open>Math.floor\<close> returns an integer, an infinity or
  NaN; from there on (\<^verbatim>\<open>Math.min(..., 99)\<close>, the comparison with the Job's integer progress
  and the assignment) every value is an integer or special, and the operations are exact.
\<close>

datatype floorResult = FloorNaN | FloorNegInf | FloorPosInf | FloorInt int

record 'n Arith =
  num_zero :: 'n
  num_one :: 'n
  num_add :: "'n \<Rightarrow> 'n \<Rightarrow> 'n"
  num_mul :: "'n \<Rightarrow> 'n \<Rightarrow> 'n"
  num_div :: "'n \<Rightarrow> 'n \<Rightarrow> 'n"
  num_gt :: "'n \<Rightarrow> 'n \<Rightarrow> bool"
  num_max :: "'n \<Rightarrow> 'n \<Rightarrow> 'n"
  num_floor :: "'n \<Rightarrow> floorResult"

text \<open>\<^verbatim>\<open>Math.min(x, 99)\<close> and \<^verbatim>\<open>this.progress < x\<close> for a result \<open>x\<close> of \<^verbatim>\<open>Math.floor\<close>.\<close>

fun minWith99 :: "floorResult \<Rightarrow> floorResult" where
  "minWith99 FloorNaN = FloorNaN"
| "minWith99 FloorNegInf = FloorNegInf"
| "minWith99 FloorPosInf = FloorInt 99"
| "minWith99 (FloorInt k) = FloorInt (min k 99)"

fun lessThanResult :: "int \<Rightarrow> floorResult \<Rightarrow> bool" where
  "lessThanResult p FloorNaN = False"
| "lessThanResult p FloorNegInf = False"
| "lessThanResult p FloorPosInf = True"
| "lessThanResult p (FloorInt k) = (p < k)"

text \<open>
  The columns of a workflow step that \<^verbatim>\<open>updateProgress\<close> loads, and the step's derived
  \<^verbatim>\<open>progress\<close>.
\<close>

record 'n WorkflowStep =
  workItemCount :: int
  completed_work_item_count :: int
  progress_weight :: 'n
  ws_progress :: 'n

text \<open>
  The loop \<^verbatim>\<open>for (const step of steps) { step.updateProgress(prevStep); prevStep = step; }\<close>.
  \<^verbatim>\<open>WorkflowStep.updateProgress\<close> lives in models/workflow-steps.ts, which is not among the
  sources, so it is the parameter \<open>stepUpdate\<close>.
\<close>

fun walkSteps ::
  "('n WorkflowStep option \<Rightarrow> 'n WorkflowStep \<Rightarrow> 'n WorkflowStep) \<Rightarrow> 'n WorkflowStep option
   \<Rightarrow> 'n WorkflowStep list \<Rightarrow> 'n WorkflowStep list" where
  "walkSteps stepUpdate prevStep [] = []"
| "walkSteps stepUpdate prevStep (step # rest) =
     (let step' = stepUpdate prevStep step
      in step' # walkSteps stepUpdate (Some step') rest)"

text \<open>
  \<open>loaded\<close> is the result of \<^verbatim>\<open>getWorkflowStepsByJobId(tx, this.jobID, ...)\<close>. The value
  assigned to \<^verbatim>\<open>this.progress\<close> passed the comparison, so it is an integer of at most 99.
\<close>

definition updateProgress ::
  "'n Arith \<Rightarrow> ('n WorkflowStep option \<Rightarrow> 'n WorkflowStep \<Rightarrow> 'n WorkflowStep)
   \<Rightarrow> 'n WorkflowStep list \<Rightarrow> Job \<Rightarrow> Job" where
  "updateProgress ar stepUpdate loaded j =
     (let steps = walkSteps stepUpdate None loaded;
          sumOfWeights0 = foldl (\<lambda>sum step. num_add ar sum (progress_weight step))
                            (num_zero ar) steps;
          sumOfWeights = (if num_gt ar sumOfWeights0 (num_zero ar)
                          then sumOfWeights0 else num_one ar);
          progSum0 = foldl (\<lambda>sum step. num_add ar sum
                               (num_mul ar (progress_weight step) (ws_progress step)))
                       (num_zero ar) steps;
          progSum = num_max ar (num_zero ar) progSum0;
          newProgress = minWith99 (num_floor ar (num_div ar progSum sumOfWeights))
      in if lessThanResult (progress j) newProgress
         then (case newProgress of FloorInt p \<Rightarrow> j\<lparr> progress := p \<rparr> | _ \<Rightarrow> j)
         else j)"

text \<open>
  A sequence of calls on one Job object: a public mutator, or \<^verbatim>\<open>updateProgress\<close> with the
  workflow steps it finds in the database at that moment. A mutator that throws leaves the
  object as \<open>applyMutator\<close> returns it. \<open>runOps\<close> lists the Job after each call.
\<close>

datatype 'n jobOp = Mutate mutator | UpdateProgress "'n WorkflowStep list"

fun applyOp ::
  "'n Arith \<Rightarrow> ('n WorkflowStep option \<Rightarrow> 'n WorkflowStep \<Rightarrow> 'n WorkflowStep)
   \<Rightarrow> 'n jobOp \<Rightarrow> Job \<Rightarrow> Job" where
  "applyOp ar stepUpdate (Mutate m) j = snd (applyMutator m j)"
| "applyOp ar stepUpdate (UpdateProgress loaded) j = updateProgress ar stepUpdate loaded j"

fun runOps ::
  "'n Arith \<Rightarrow> ('n WorkflowStep option \<Rightarrow> 'n WorkflowStep \<Rightarrow> 'n WorkflowStep)
   \<Rightarrow> 'n jobOp list \<Rightarrow> Job \<Rightarrow> Job list" where
  "runOps ar stepUpdate [] j = []"
| "runOps ar stepUpdate (op # ops) j =
     (let j' = applyOp ar stepUpdate op j in j' # runOps ar stepUpdate ops j')"

subsection \<open>The arithmetic of the runtime: IEEE 754 binary64\<close>

text \<open>
  A JavaScript number is a double: a finite real of the form \<open>m * 2 ^ k\<close> with
  \<open>\<bar>m\<bar> < 2 ^ 53\<close> and \<open>- 1074 \<le> k\<close>, below \<open>2 ^ 1024\<close> in magnitude, or an infinity, or NaN.
  The sign of a zero is not modelled. No result of \<^verbatim>\<open>updateProgress\<close> depends on it: the
  divisor passed \<^verbatim>\<open>> 0\<close> or is 1, \<^verbatim>\<open>Math.max(0, -0)\<close> is 0, and \<^verbatim>\<open>-0 > 0\<close> is false.
\<close>

datatype double = Fin real | PInf | NInf | NaN

text \<open>The integer nearest to a real, a tie going to the even one.\<close>

definition roundEven :: "real \<Rightarrow> int" where
  "roundEven y =
     (let f = \<lfloor>y\<rfloor>
      in if y - of_int f < 1 / 2 then f
         else if 1 / 2 < y - of_int f then f + 1
         else if even f then f else f + 1)"

text \<open>
  \<open>round64 x\<close> is the double nearest to the real \<open>x\<close>, ties to the even significand,
  which is what every arithmetic operation of the runtime returns for the exact result
  \<open>x\<close>. In the binade \<open>2 ^ e \<le> \<bar>x\<bar> < 2 ^ (e + 1)\<close> the doubles are the multiples of
  \<open>2 ^ (e - 52)\<close>; below \<open>2 ^ (- 1022)\<close> they are the multiples of \<open>2 ^ (- 1074)\<close>; a rounded
  magnitude of \<open>2 ^ 1024\<close> or more is an infinity.
\<close>

definition round64 :: "real \<Rightarrow> double" where
  "round64 x =
     (if x = 0 then Fin 0
      else
        (let e = max \<lfloor>log 2 \<bar>x\<bar>\<rfloor> (- 1022);
             q = 2 powi (e - 52);
             y = sgn x * of_int (roundEven (\<bar>x\<bar> / q)) * q
         in if 2 ^ 1024 \<le> \<bar>y\<bar> then (if 0 < x then PInf else NInf) else Fin y))"

text \<open>
  \<^verbatim>\<open>+\<close>, \<^verbatim>\<open>*\<close>, \<^verbatim>\<open>/\<close>, \<^verbatim>\<open>>\<close> and \<^verbatim>\<open>Math.max\<close> on doubles: the exact result rounded, and the
  rules of the standard for infinities and NaN. \<^verbatim>\<open>Math.max\<close> and \<^verbatim>\<open>>\<close> do not round.
\<close>

fun d_add :: "double \<Rightarrow> double \<Rightarrow> double" where
  "d_add (Fin a) (Fin b) = round64 (a + b)"
| "d_add NaN y = NaN"
| "d_add x NaN = NaN"
| "d_add PInf NInf = NaN"
| "d_add NInf PInf = NaN"
| "d_add PInf y = PInf"
| "d_add x PInf = PInf"
| "d_add NInf y = NInf"
| "d_add x NInf = NInf"

fun d_mul :: "double \<Rightarrow> double \<Rightarrow> double" where
  "d_mul (Fin a) (Fin b) = round64 (a * b)"
| "d_mul NaN y = NaN"
| "d_mul x NaN = NaN"
| "d_mul PInf (Fin b) = (if b = 0 then NaN else if 0 < b then PInf else NInf)"
| "d_mul NInf (Fin b) = (if b = 0 then NaN else if 0 < b then NInf else PInf)"
| "d_mul (Fin a) PInf = (if a = 0 then NaN else if 0 < a then PInf else NInf)"
| "d_mul (Fin a) NInf = (if a = 0 then NaN else if 0 < a then NInf else PInf)"
| "d_mul PInf PInf = PInf"
| "d_mul NInf NInf = PInf"
| "d_mul PInf NInf = NInf"
| "d_mul NInf PInf = NInf"

fun d_div :: "double \<Rightarrow> double \<Rightarrow> double" where
  "d_div (Fin a) (Fin b) =
     (if b = 0 then (if a = 0 then NaN else if 0 < a then PInf else NInf)
      else round64 (a / b))"
| "d_div NaN y = NaN"
| "d_div x NaN = NaN"
| "d_div (Fin a) PInf = Fin 0"
| "d_div (Fin a) NInf = Fin 0"
| "d_div PInf (Fin b) = (if 0 \<le> b then PInf else NInf)"
| "d_div NInf (Fin b) = (if 0 \<le> b then NInf else PInf)"
| "d_div PInf PInf = NaN"
| "d_div PInf NInf = NaN"
| "d_div NInf PInf = NaN"
| "d_div NInf NInf = NaN"

fun d_gt :: "double \<Rightarrow> double \<Rightarrow> bool" where
  "d_gt (Fin a) (Fin b) = (b < a)"
| "d_gt NaN y = False"
| "d_gt x NaN = False"
| "d_gt PInf PInf = False"
| "d_gt PInf y = True"
| "d_gt x PInf = False"
| "d_gt NInf y = False"
| "d_gt x NInf = True"

fun d_max :: "double \<Rightarrow> double \<Rightarrow> double" where
  "d_max (Fin a) (Fin b) = Fin (max a b)"
| "d_max NaN y = NaN"
| "d_max x NaN = NaN"
| "d_max PInf y = PInf"
| "d_max x PInf = PInf"
| "d_max NInf y = y"
| "d_max x NInf = x"

text \<open>\<^verbatim>\<open>Math.floor\<close>; the floor of a finite double is an integer and a double.\<close>

fun d_floor :: "double \<Rightarrow> floorResult" where
  "d_floor (Fin a) = FloorInt \<lfloor>a\<rfloor>"
| "d_floor PInf = FloorPosInf"
| "d_floor NInf = FloorNegInf"
| "d_floor NaN = FloorNaN"

definition binary64 :: "double Arith" where
  "binary64 = \<lparr> num_zero = Fin 0, num_one = Fin 1, num_add = d_add, num_mul = d_mul,
                num_div = d_div, num_gt = d_gt, num_max = d_max, num_floor = d_floor \<rparr>"

text \<open>
  The candidate of \<^verbatim>\<open>updateProgress\<close> on the steps after the loop, in doubles:
  \<^verbatim>\<open>reduce\<close> adds from the left starting at 0.
\<close>

fun sumLeft :: "double \<Rightarrow> double list \<Rightarrow> double" where
  "sumLeft acc [] = acc"
| "sumLeft acc (x # xs) = sumLeft (d_add acc x) xs"

definition rollupCandidate :: "double WorkflowStep list \<Rightarrow> floorResult" where
  "rollupCandidate steps =
     (let weighted = d_max (Fin 0)
            (sumLeft (Fin 0) (map (\<lambda>s. d_mul (progress_weight s) (ws_progress s)) steps));
          weights = sumLeft (Fin 0) (map progress_weight steps);
          total = (if d_gt weights (Fin 0) then weights else Fin 1)
      in minWith99 (d_floor (d_div weighted total)))"

text \<open>
  The same quantities over the reals, for steps whose numbers are finite: the weights,
  the products of weight and progress, the candidate in the words of the specification
  (\<open>total = max 1 (sum weight\<^sub>i)\<close>, clamped to 0..99), and the candidate with the total of
  the code (the sum of the weights when it is positive, otherwise 1).
\<close>

fun realOf :: "double \<Rightarrow> real" where
  "realOf (Fin a) = a"
| "realOf PInf = 0"
| "realOf NInf = 0"
| "realOf NaN = 0"

fun isFinite :: "double \<Rightarrow> bool" where
  "isFinite (Fin a) = True"
| "isFinite PInf = False"
| "isFinite NInf = False"
| "isFinite NaN = False"

definition weightsOf :: "double WorkflowStep list \<Rightarrow> real list" where
  "weightsOf steps = map (\<lambda>s. realOf (progress_weight s)) steps"

definition productsOf :: "double WorkflowStep list \<Rightarrow> real list" where
  "productsOf steps = map (\<lambda>s. realOf (progress_weight s) * realOf (ws_progress s)) steps"

definition spec_candidate :: "double WorkflowStep list \<Rightarrow> int" where
  "spec_candidate steps =
     (let weighted = sum_list (productsOf steps);
          total = max 1 (sum_list (weightsOf steps))
      in max 0 (min 99 \<lfloor>weighted / total\<rfloor>))"

definition exact_candidate :: "double WorkflowStep list \<Rightarrow> int" where
  "exact_candidate steps =
     (let weighted = sum_list (productsOf steps);
          weights = sum_list (weightsOf steps);
          total = (if 0 < weights then weights else 1)
      in max 0 (min 99 \<lfloor>weighted / total\<rfloor>))"

text \<open>
  No operation of the rollup rounds: the numbers are finite, and every product, every
  partial sum and the quotient are doubles.
\<close>

fun exactSum :: "real \<Rightarrow> real list \<Rightarrow> bool" where
  "exactSum acc [] = True"
| "exactSum acc (x # xs) = (round64 (acc + x) = Fin (acc + x) \<and> exactSum (acc + x) xs)"

definition exactRollup :: "double WorkflowStep list \<Rightarrow> bool" where
  "exactRollup steps =
     (list_all (\<lambda>s. isFinite (progress_weight s) \<and> isFinite (ws_progress s)
                   \<and> round64 (realOf (progress_weight s) * realOf (ws_progress s))
                       = Fin (realOf (progress_weight s) * realOf (ws_progress s))) steps
      \<and> exactSum 0 (weightsOf steps)
      \<and> exactSum 0 (productsOf steps)
      \<and> (let weights = sum_list (weightsOf steps);
              total = (if 0 < weights then weights else 1);
              quotient = max 0 (sum_list (productsOf steps)) / total
          in round64 quotient = Fin quotient))"

section \<open>The user_work table (models/user-work.ts)\<close>

record UserWork =
  job_id :: string
  service_id :: string
  uw_username :: string
  ready_count :: int
  running_count :: int
  last_worked :: int

text \<open>One row of the grouped query: \<^verbatim>\<open>username, max(last_worked) as lw, sum(running_count) as rc\<close>.\<close>

record UserGroup =
  g_username :: string
  lw :: int
  rc :: int

definition groupFor :: "UserWork list \<Rightarrow> string \<Rightarrow> UserGroup" where
  "groupFor table u =
     (let rows = filter (\<lambda>r. uw_username r = u) table
      in \<lparr> g_username = u, lw = Max (set (map last_worked rows)),
           rc = sum_list (map running_count rows) \<rparr>)"

text \<open>
  \<^verbatim>\<open>getNextUsernameForWork\<close>: the subquery (distinct usernames with a row of the service
  whose \<^verbatim>\<open>ready_count\<close> is positive), the grouped query over all rows of those usernames,
  ordered by \<^verbatim>\<open>rc\<close> then \<^verbatim>\<open>lw\<close>, both ascending, \<^verbatim>\<open>.first()\<close>, and \<^verbatim>\<open>results?.username\<close>.
  Among rows equal in both keys the database may return any; the model keeps table order.
\<close>

definition readyUsernames :: "UserWork list \<Rightarrow> string \<Rightarrow> string list" where
  "readyUsernames table serviceID =
     remdups (map uw_username
       (filter (\<lambda>r. service_id r = serviceID \<and> ready_count r > 0) table))"

definition nextUserResults :: "UserWork list \<Rightarrow> string \<Rightarrow> UserGroup list" where
  "nextUserResults table serviceID =
     (let subquery = readyUsernames table serviceID;
          groups = map (groupFor table)
                     (remdups (map uw_username (filter (\<lambda>r. uw_username r \<in> set subquery) table)))
      in sort_key (\<lambda>g. (rc g, lw g)) groups)"

definition getNextUsernameForWork :: "UserWork list \<Rightarrow> string \<Rightarrow> error + string option" where
  "getNextUsernameForWork table serviceID =
     (case nextUserResults table serviceID of
        [] \<Rightarrow> Inr None
      | results # _ \<Rightarrow> Inr (Some (g_username results)))"

text \<open>
  \<^verbatim>\<open>getNextJobIdForUsernameAndService\<close>: \<^verbatim>\<open>.first()\<close> of an empty result is \<^verbatim>\<open>undefined\<close>, and
  \<^verbatim>\<open>results.job_id\<close> then throws a TypeError.
\<close>

definition getNextJobIdForUsernameAndService ::
  "UserWork list \<Rightarrow> string \<Rightarrow> string \<Rightarrow> error + string" where
  "getNextJobIdForUsernameAndService table serviceID user =
     (case sort_key last_worked
             (filter (\<lambda>r. ready_count r > 0)
                (filter (\<lambda>r. uw_username r = user \<and> service_id r = serviceID) table)) of
        [] \<Rightarrow> Inl (TypeError ''Cannot read properties of undefined (reading job_id)'')
      | results # _ \<Rightarrow> Inr (job_id results))"

definition setReadyCountToZero :: "UserWork list \<Rightarrow> string \<Rightarrow> UserWork list" where
  "setReadyCountToZero table jobId =
     map (\<lambda>r. if job_id r = jobId then r\<lparr> ready_count := 0 \<rparr> else r) table"

text \<open>
  The vocabulary of the fairness claims: a user has a ready row for a service; the sum of
  \<open>running_count\<close> and the latest \<open>last_worked\<close> over all rows of a user (the grouped
  query does not restrict them to the service).
\<close>

definition hasReady :: "UserWork list \<Rightarrow> string \<Rightarrow> string \<Rightarrow> bool" where
  "hasReady table serviceID u =
     (\<exists>r \<in> set table. uw_username r = u \<and> service_id r = serviceID \<and> 0 < ready_count r)"

definition sumRunning :: "UserWork list \<Rightarrow> string \<Rightarrow> int" where
  "sumRunning table u = sum_list (map running_count (filter (\<lambda>r. uw_username r = u) table))"

definition maxLastWorked :: "UserWork list \<Rightarrow> string \<Rightarrow> int" where
  "maxLastWorked table u = Max (set (map last_worked (filter (\<lambda>r. uw_username r = u) table)))"

section \<open>Persistence (\<^verbatim>\<open>Job.save\<close>, \<^verbatim>\<open>Job.pauseAndSave\<close>)\<close>

text \<open>
  The database a transaction sees: the user_work table, and the tables that \<^verbatim>\<open>save\<close>
  writes (jobs, job_links, labels, jobs_labels) as one component of any type. The writers
  of those tables are not among the sources (models/record.ts, models/job-link.ts,
  models/label.ts), nor is \<^verbatim>\<open>truncateString\<close>; they are parameters, and each writer may
  throw.
\<close>

record 'o Database =
  user_work :: "UserWork list"
  job_tables :: 'o

record 'o StoreOps =
  truncateString :: "string \<Rightarrow> nat \<Rightarrow> string"
  recordSave :: "Job \<Rightarrow> 'o \<Rightarrow> error + 'o"
  linkSave :: "JobLink \<Rightarrow> 'o \<Rightarrow> error + 'o"
  setLabelsForJob :: "string \<Rightarrow> string \<Rightarrow> string list \<Rightarrow> 'o \<Rightarrow> error + 'o"

definition TEXT_LIMIT :: nat where
  "TEXT_LIMIT = 4096"

definition validateStatus :: "Job \<Rightarrow> error + unit" where
  "validateStatus j =
     (case originalStatus j of
        None \<Rightarrow> Inr ()
      | Some orig \<Rightarrow>
          if orig \<in> set terminalStates
          then Inl (ConflictError (''Job status cannot be updated from '' @ statusString orig
                                   @ '' to '' @ statusString (status j) @ ''.''))
          else Inr ())"

text \<open>
  The loop over \<^verbatim>\<open>this.links\<close>: every link without an id is saved; the saves are started in
  order and \<^verbatim>\<open>Promise.all\<close> rejects with the first error, the other saves still running.
\<close>

fun saveNewLinks :: "'o StoreOps \<Rightarrow> JobLink list \<Rightarrow> 'o \<Rightarrow> (error + unit) \<times> 'o" where
  "saveNewLinks ops [] t = (Inr (), t)"
| "saveNewLinks ops (link # rest) t =
     (if link_id link = None
      then (case linkSave ops link t of
              Inl e \<Rightarrow> (Inl e, snd (saveNewLinks ops rest t))
            | Inr t' \<Rightarrow> saveNewLinks ops rest t')
      else saveNewLinks ops rest t)"

definition save :: "'o StoreOps \<Rightarrow> Job \<Rightarrow> 'o Database \<Rightarrow> (error + unit) \<times> Job \<times> 'o Database" where
  "save ops j db =
     (let reservedMessageChars = 1000 in
      case validateStatus j of
        Inl e \<Rightarrow> (Inl e, j, db)
      | Inr _ \<Rightarrow>
          (let truncatedFailureMessage =
                 truncateString ops (getMessage FAILED j) (TEXT_LIMIT - reservedMessageChars);
               j1 = setMessage truncatedFailureMessage FAILED j;
               j2 = j1\<lparr> request := truncateString ops (request j1) TEXT_LIMIT \<rparr>
           in case recordSave ops j2 (job_tables db) of
                Inl e \<Rightarrow> (Inl e, j2, db)
              | Inr t1 \<Rightarrow>
                  (case saveNewLinks ops (links j2) t1 of
                     (Inl e, t2) \<Rightarrow> (Inl e, j2, db\<lparr> job_tables := t2 \<rparr>)
                   | (Inr _, t2) \<Rightarrow>
                       (case setLabelsForJob ops (jobID j2) (username j2) (labels j2) t2 of
                          Inl e \<Rightarrow> (Inl e, j2, db\<lparr> job_tables := t2 \<rparr>)
                        | Inr t3 \<Rightarrow> (Inr (), j2, db\<lparr> job_tables := t3 \<rparr>)))))"

definition pauseAndSave ::
  "'o StoreOps \<Rightarrow> Job \<Rightarrow> 'o Database \<Rightarrow> (error + unit) \<times> Job \<times> 'o Database" where
  "pauseAndSave ops j db =
     (case validateTransition (status j) PAUSED EV_PAUSE None of
        Inl e \<Rightarrow> (Inl e, j, db)
      | Inr _ \<Rightarrow>
          (let j1 = updateStatus PAUSED (Some (getMessage PAUSED j)) j
           in case save ops j1 db of
                (Inl e, j2, db2) \<Rightarrow> (Inl e, j2, db2)
              | (Inr _, j2, db2) \<Rightarrow>
                  (Inr (), j2, db2\<lparr> user_work := setReadyCountToZero (user_work db2) (jobID j2) \<rparr>)))"

section \<open>The work reaper (workers/work-reaper.ts)\<close>

text \<open>
  The tables the reaper reads and deletes from. Timestamps are milliseconds, as
  JavaScript dates are.
\<close>

record JobRow =
  jr_jobID :: string
  jr_status :: JobStatus
  jr_updatedAt :: int

record WorkItemRow =
  wi_id :: nat
  wi_jobID :: string

record WorkflowStepRow =
  wfs_id :: nat
  wfs_jobID :: string

record ReaperDb =
  jobs :: "JobRow list"
  work_items :: "WorkItemRow list"
  workflow_steps :: "WorkflowStepRow list"

datatype logEntry =
  LogInfo string | LogInfoCount string nat string | LogError string | LogErrorObject error

record ReaperState =
  rdb :: ReaperDb
  rlog :: "logEntry list"

text \<open>
  Modelled from the spec: the four store functions of models/work-item.ts and
  models/workflow-steps.ts that \<^verbatim>\<open>deleteTerminalWork\<close> calls are not among the sources.
  Section 4.5: "Select work-item identifiers whose parent Job is in one of {failed,
  successful, canceled} and whose Job updatedAt is older than the threshold; delete them in
  one pass. Select workflow-step identifiers by the same predicate; delete them in one
  pass." The statuses are the list the caller passes, the threshold is
  \<open>notUpdatedForMinutes\<close> minutes before \<open>now\<close>, and a delete returns the number of rows
  it removed.
\<close>

definition reapableJobIds :: "ReaperDb \<Rightarrow> int \<Rightarrow> int \<Rightarrow> JobStatus list \<Rightarrow> string list" where
  "reapableJobIds db now notUpdatedForMinutes jobStatus =
     map jr_jobID
       (filter (\<lambda>j. jr_status j \<in> set jobStatus
                    \<and> jr_updatedAt j < now - notUpdatedForMinutes * 60 * 1000) (jobs db))"

definition getWorkItemIdsByJobUpdateAgeAndStatus ::
  "ReaperDb \<Rightarrow> int \<Rightarrow> int \<Rightarrow> JobStatus list \<Rightarrow> nat list" where
  "getWorkItemIdsByJobUpdateAgeAndStatus db now notUpdatedForMinutes jobStatus =
     map wi_id
       (filter (\<lambda>w. wi_jobID w \<in> set (reapableJobIds db now notUpdatedForMinutes jobStatus))
          (work_items db))"

definition getWorkflowStepIdsByJobUpdateAgeAndStatus ::
  "ReaperDb \<Rightarrow> int \<Rightarrow> int \<Rightarrow> JobStatus list \<Rightarrow> nat list" where
  "getWorkflowStepIdsByJobUpdateAgeAndStatus db now notUpdatedForMinutes jobStatus =
     map wfs_id
       (filter (\<lambda>w. wfs_jobID w \<in> set (reapableJobIds db now notUpdatedForMinutes jobStatus))
          (workflow_steps db))"

definition deleteWorkItemsById :: "ReaperDb \<Rightarrow> nat list \<Rightarrow> nat \<times> ReaperDb" where
  "deleteWorkItemsById db ids =
     (length (filter (\<lambda>w. wi_id w \<in> set ids) (work_items db)),
      db\<lparr> work_items := filter (\<lambda>w. wi_id w \<notin> set ids) (work_items db) \<rparr>)"

definition deleteWorkflowStepsById :: "ReaperDb \<Rightarrow> nat list \<Rightarrow> nat \<times> ReaperDb" where
  "deleteWorkflowStepsById db ids =
     (length (filter (\<lambda>w. wfs_id w \<in> set ids) (workflow_steps db)),
      db\<lparr> workflow_steps := filter (\<lambda>w. wfs_id w \<notin> set ids) (workflow_steps db) \<rparr>)"

text \<open>
  What the environment does to one tick: each of the four store calls may throw (a
  transient storage error), and the clock reads \<open>tick_now\<close>.
\<close>

record Tick =
  getItemsError :: "error option"
  deleteItemsError :: "error option"
  getStepsError :: "error option"
  deleteStepsError :: "error option"
  tick_now :: int

definition logTo :: "logEntry \<Rightarrow> ReaperState \<Rightarrow> ReaperState" where
  "logTo entry st = st\<lparr> rlog := rlog st @ [entry] \<rparr>"

text \<open>The body of the \<^verbatim>\<open>try\<close> block of \<^verbatim>\<open>deleteTerminalWork\<close>, in two halves.\<close>

definition reapWorkflowSteps ::
  "Tick \<Rightarrow> int \<Rightarrow> JobStatus list \<Rightarrow> ReaperState \<Rightarrow> (error + unit) \<times> ReaperState" where
  "reapWorkflowSteps tick notUpdatedForMinutes jobStatus st =
     (case getStepsError tick of
        Some e \<Rightarrow> (Inl e, st)
      | None \<Rightarrow>
          (let workStepIds = getWorkflowStepIdsByJobUpdateAgeAndStatus (rdb st) (tick_now tick)
                               notUpdatedForMinutes jobStatus
           in if length workStepIds \<noteq> 0
              then (case deleteStepsError tick of
                      Some e \<Rightarrow> (Inl e, st)
                    | None \<Rightarrow>
                        (let (numStepsDeleted, db') = deleteWorkflowStepsById (rdb st) workStepIds
                         in (Inr (), logTo (LogInfoCount ''Work reaper removed '' numStepsDeleted
                                              '' workflow steps'') (st\<lparr> rdb := db' \<rparr>))))
              else (Inr (), logTo (LogInfo ''Work reaper did not find any workflow steps to delete'') st)))"

definition reapWork ::
  "Tick \<Rightarrow> int \<Rightarrow> JobStatus list \<Rightarrow> ReaperState \<Rightarrow> (error + unit) \<times> ReaperState" where
  "reapWork tick notUpdatedForMinutes jobStatus st =
     (case getItemsError tick of
        Some e \<Rightarrow> (Inl e, st)
      | None \<Rightarrow>
          (let workItemIds = getWorkItemIdsByJobUpdateAgeAndStatus (rdb st) (tick_now tick)
                               notUpdatedForMinutes jobStatus
           in if length workItemIds \<noteq> 0
              then (case deleteItemsError tick of
                      Some e \<Rightarrow> (Inl e, st)
                    | None \<Rightarrow>
                        (let (numItemsDeleted, db') = deleteWorkItemsById (rdb st) workItemIds
                         in reapWorkflowSteps tick notUpdatedForMinutes jobStatus
                              (logTo (LogInfoCount ''Work reaper removed '' numItemsDeleted
                                        '' work items'') (st\<lparr> rdb := db' \<rparr>))))
              else reapWorkflowSteps tick notUpdatedForMinutes jobStatus
                     (logTo (LogInfo ''Work reaper did not find any work items to delete'') st)))"

text \<open>\<^verbatim>\<open>deleteTerminalWork\<close>: the \<^verbatim>\<open>try\<close> block and its \<^verbatim>\<open>catch\<close>, which logs twice.\<close>

definition deleteTerminalWork ::
  "Tick \<Rightarrow> int \<Rightarrow> JobStatus list \<Rightarrow> ReaperState \<Rightarrow> (error + unit) \<times> ReaperState" where
  "deleteTerminalWork tick notUpdatedForMinutes jobStatus st =
     (case reapWork tick notUpdatedForMinutes jobStatus st of
        (Inr _, st') \<Rightarrow> (Inr (), st')
      | (Inl e, st') \<Rightarrow>
          (Inr (), logTo (LogErrorObject e)
                     (logTo (LogError ''Error attempting to delete terminal work items'') st')))"

text \<open>
  \<^verbatim>\<open>start\<close>: one element of the list for every iteration that found \<^verbatim>\<open>isRunning\<close> true;
  the loop ends when \<^verbatim>\<open>stop\<close> has cleared the flag. \<open>reapableWorkAgeMinutes\<close> is the
  configured threshold (util/env).
\<close>

fun start :: "int \<Rightarrow> Tick list \<Rightarrow> ReaperState \<Rightarrow> (error + unit) \<times> ReaperState" where
  "start reapableWorkAgeMinutes [] st = (Inr (), st)"
| "start reapableWorkAgeMinutes (tick # later) st =
     (case deleteTerminalWork tick reapableWorkAgeMinutes [FAILED, SUCCESSFUL, CANCELED]
             (logTo (LogInfo ''Starting work reaper'') st) of
        (Inl e, st') \<Rightarrow> (Inl e, st')
      | (Inr _, st') \<Rightarrow> start reapableWorkAgeMinutes later st')"

text \<open>The job a row of a derived table belongs to is reapable at a tick.\<close>

definition reapable :: "ReaperDb \<Rightarrow> int \<Rightarrow> int \<Rightarrow> string \<Rightarrow> bool" where
  "reapable db now minutes jid =
     (\<exists>j \<in> set (jobs db). jr_jobID j = jid
        \<and> (jr_status j = FAILED \<or> jr_status j = SUCCESSFUL \<or> jr_status j = CANCELED)
        \<and> jr_updatedAt j < now - minutes * 60 * 1000)"

text \<open>A tick on which no store call throws, and the number of times the loop has logged
  its start.\<close>

definition noFaults :: "Tick \<Rightarrow> bool" where
  "noFaults tick = (getItemsError tick = None \<and> deleteItemsError tick = None
                    \<and> getStepsError tick = None \<and> deleteStepsError tick = None)"

definition starts :: "logEntry list \<Rightarrow> nat" where
  "starts entries = length (filter (\<lambda>e. e = LogInfo ''Starting work reaper'') entries)"

section \<open>Granule queries (\<^verbatim>\<open>querySource\<close>)\<close>

text \<open>
  The catalog \<^verbatim>\<open>querySource\<close> builds: its description and the granules added to it, each
  with the file prefix it was added under. Reading the query file (object store download,
  \<^verbatim>\<open>fs.readFile\<close>, \<^verbatim>\<open>JSON.parse\<close>) and the CMR query are the environment; both may throw, and
  the CMR query may answer differently each time it is asked (its first argument counts the
  queries issued before it).
\<close>

record 'g CmrStacCatalog =
  description :: string
  granules :: "(string \<times> 'g) list"

record DataSource =
  collection :: string

record ('q, 'g) QueryEnv =
  readQueryFile :: "string \<Rightarrow> error + 'q"
  cmrQueryGranules :: "nat \<Rightarrow> string \<Rightarrow> 'q \<Rightarrow> string \<Rightarrow> int \<Rightarrow> error + 'g list"

record 'g QueryLoop =
  q_result :: "'g CmrStacCatalog"
  q_page :: int
  q_done :: bool
  q_queries :: nat

definition addCmrGranules :: "'g list \<Rightarrow> string \<Rightarrow> 'g CmrStacCatalog \<Rightarrow> 'g CmrStacCatalog" where
  "addCmrGranules gs filePrefix cat = cat\<lparr> granules := granules cat @ map (\<lambda>g. (filePrefix, g)) gs \<rparr>"

text \<open>
  The \<^verbatim>\<open>while (!done)\<close> loop. \<^verbatim>\<open>done = ++page < maxPages || true\<close> increments \<^verbatim>\<open>page\<close>, and
  the right operand of \<^verbatim>\<open>||\<close> is the constant \<^verbatim>\<open>true\<close>.
\<close>

partial_function (option) querySourceLoop ::
  "('q, 'g) QueryEnv \<Rightarrow> string \<Rightarrow> DataSource \<Rightarrow> 'q \<Rightarrow> int \<Rightarrow> int \<Rightarrow> string \<Rightarrow> 'g QueryLoop
   \<Rightarrow> ((error + unit) \<times> 'g QueryLoop) option" where
  "querySourceLoop env token source cmrQuery pageSize maxPages filePrefix st =
     (if \<not> q_done st
      then (case cmrQueryGranules env (q_queries st) (collection source) cmrQuery token pageSize of
              Inl e \<Rightarrow> Some (Inl e, st\<lparr> q_queries := q_queries st + 1 \<rparr>)
            | Inr cmrResponse \<Rightarrow>
                querySourceLoop env token source cmrQuery pageSize maxPages filePrefix
                  (st\<lparr> q_result := addCmrGranules cmrResponse filePrefix (q_result st),
                       q_page := q_page st + 1,
                       q_done := (q_page st + 1 < maxPages \<or> True),
                       q_queries := q_queries st + 1 \<rparr>))
      else Some (Inr (), st))"

text \<open>
  \<^verbatim>\<open>querySource\<close> returns the catalog or throws; the second component is the number of
  granule-page queries it issued.
\<close>

definition querySource ::
  "('q, 'g) QueryEnv \<Rightarrow> string \<Rightarrow> DataSource \<Rightarrow> string \<Rightarrow> int \<Rightarrow> int \<Rightarrow> string
   \<Rightarrow> ((error + 'g CmrStacCatalog) \<times> nat) option" where
  "querySource env token source queryLocation pageSize maxPages filePrefix =
     (let result = \<lparr> description = ''CMR Granules for '' @ collection source, granules = [] \<rparr>
      in case readQueryFile env queryLocation of
           Inl e \<Rightarrow> Some (Inl e, 0)
         | Inr cmrQuery \<Rightarrow>
             (case querySourceLoop env token source cmrQuery pageSize maxPages filePrefix
                     \<lparr> q_result = result, q_page = 0, q_done = False, q_queries = 0 \<rparr> of
                None \<Rightarrow> None
              | Some (Inl e, st) \<Rightarrow> Some (Inl e, q_queries st)
              | Some (Inr _, st) \<Rightarrow> Some (Inr (q_result st), q_queries st)))"

section \<open>Concrete inputs\<close>

text \<open>Store writers that always succeed, over a database whose job tables are trivial.\<close>

definition okOps :: "unit StoreOps" where
  "okOps = \<lparr> truncateString = (\<lambda>s n. take n s), recordSave = (\<lambda>j t. Inr t),
             linkSave = (\<lambda>l t. Inr t), setLabelsForJob = (\<lambda>jid u ls t. Inr t) \<rparr>"

definition jobWith :: "JobStatus \<Rightarrow> JobStatus option \<Rightarrow> int \<Rightarrow> Job" where
  "jobWith s orig p = \<lparr> jobID = ''job-1'', username = ''userA'', requestId = ''job-1'',
     status = s, originalStatus = orig, statesToMessages = [], progress = p,
     batchesCompleted = 0, request = ''http://example.com/req'', links = [], labels = [],
     collectionIds = [] \<rparr>"

definition sampleDb :: "unit Database" where
  "sampleDb = \<lparr> user_work =
      [\<lparr> job_id = ''job-1'', service_id = ''svcA'', uw_username = ''userA'',
         ready_count = 4, running_count = 2, last_worked = 10 \<rparr>,
       \<lparr> job_id = ''job-2'', service_id = ''svcA'', uw_username = ''userB'',
         ready_count = 3, running_count = 1, last_worked = 5 \<rparr>,
       \<lparr> job_id = ''job-1'', service_id = ''svcB'', uw_username = ''userA'',
         ready_count = 7, running_count = 0, last_worked = 12 \<rparr>],
     job_tables = () \<rparr>"

text \<open>A step update that leaves the loaded progress as it is, and a workflow step with a
  given weight and progress.\<close>

definition keepStep :: "'n WorkflowStep option \<Rightarrow> 'n WorkflowStep \<Rightarrow> 'n WorkflowStep" where
  "keepStep prevStep step = step"

definition stepWith :: "'n \<Rightarrow> 'n \<Rightarrow> 'n WorkflowStep" where
  "stepWith w p = \<lparr> workItemCount = 10, completed_work_item_count = 5, progress_weight = w, ws_progress = p \<rparr>"

text \<open>A run of calls on a running job: rollups, a pause and resume, success, and a late
  failure. The steps' numbers are the literals of the arithmetic in use.\<close>

definition sampleOps :: "'n Arith \<Rightarrow> 'n jobOp list" where
  "sampleOps ar = [UpdateProgress [stepWith (num_one ar) (num_one ar)], Mutate Pause, Mutate Resume,
                   UpdateProgress [stepWith (num_one ar) (num_zero ar)], Mutate (Succeed None),
                   Mutate (Fail None)]"

text \<open>
  Steps in doubles: one step of weight 1/2 and progress 1; scenario S5 of the
  specification; two steps with progresses in percent; and steps whose weights are the
  doubles nearest to 0.1 and 0.2, where the rollup rounds.
\<close>

definition halfWeightSteps :: "double WorkflowStep list" where
  "halfWeightSteps = [stepWith (Fin (1 / 2)) (Fin 1)]"

definition scenarioS5 :: "double WorkflowStep list" where
  "scenarioS5 = [stepWith (Fin 1) (Fin (1 / 2)), stepWith (Fin 3) (Fin 0)]"

definition percentSteps :: "double WorkflowStep list" where
  "percentSteps = [stepWith (Fin 1) (Fin 60), stepWith (Fin 3) (Fin 20)]"

definition tenthSteps :: "double WorkflowStep list" where
  "tenthSteps = [stepWith (round64 (1 / 10)) (Fin 43)]"

definition tenthFifthSteps :: "double WorkflowStep list" where
  "tenthFifthSteps = [stepWith (round64 (1 / 10)) (Fin 30), stepWith (round64 (1 / 5)) (Fin 30)]"

text \<open>Scenario S4 of the specification, with a third user whose only row has nothing ready.\<close>

definition scenarioS4 :: "UserWork list" where
  "scenarioS4 =
     [\<lparr> job_id = ''job-a'', service_id = ''s'', uw_username = ''userA'',
        ready_count = 1, running_count = 5, last_worked = 20 \<rparr>,
      \<lparr> job_id = ''job-b'', service_id = ''s'', uw_username = ''userB'',
        ready_count = 1, running_count = 5, last_worked = 10 \<rparr>,
      \<lparr> job_id = ''job-c'', service_id = ''t'', uw_username = ''userC'',
        ready_count = 0, running_count = 0, last_worked = 1 \<rparr>]"

text \<open>An environment whose query file reads and whose CMR query answers with two granules
  numbered from the count of earlier queries.\<close>

definition sampleEnv :: "(string, nat) QueryEnv" where
  "sampleEnv = \<lparr> readQueryFile = (\<lambda>loc. Inr ''{}''),
                 cmrQueryGranules = (\<lambda>n coll q tok size. Inr [n, n + 100]) \<rparr>"

definition sampleSource :: DataSource where
  "sampleSource = \<lparr> collection = ''C1-PROV'' \<rparr>"

text \<open>
  Scenario S6 of the specification (threshold 60 minutes, clock at 200 minutes): jobs last
  updated 120 minutes ago that are successful, running and complete_with_errors, and a
  failed job updated recently; a tick without faults and one whose delete throws.
\<close>

definition scenarioS6 :: ReaperState where
  "scenarioS6 = \<lparr> rdb = \<lparr>
       jobs = [\<lparr> jr_jobID = ''job-s'', jr_status = SUCCESSFUL, jr_updatedAt = 4800000 \<rparr>,
               \<lparr> jr_jobID = ''job-r'', jr_status = RUNNING, jr_updatedAt = 4800000 \<rparr>,
               \<lparr> jr_jobID = ''job-c'', jr_status = COMPLETE_WITH_ERRORS, jr_updatedAt = 4800000 \<rparr>,
               \<lparr> jr_jobID = ''job-f'', jr_status = FAILED, jr_updatedAt = 11000000 \<rparr>],
       work_items = [\<lparr> wi_id = 1, wi_jobID = ''job-s'' \<rparr>, \<lparr> wi_id = 2, wi_jobID = ''job-r'' \<rparr>,
                     \<lparr> wi_id = 3, wi_jobID = ''job-c'' \<rparr>, \<lparr> wi_id = 4, wi_jobID = ''job-f'' \<rparr>,
                     \<lparr> wi_id = 5, wi_jobID = ''job-s'' \<rparr>],
       workflow_steps = [\<lparr> wfs_id = 1, wfs_jobID = ''job-s'' \<rparr>, \<lparr> wfs_id = 2, wfs_jobID = ''job-r'' \<rparr>] \<rparr>,
     rlog = [] \<rparr>"

definition quietTick :: Tick where
  "quietTick = \<lparr> getItemsError = None, deleteItemsError = None, getStepsError = None,
                 deleteStepsError = None, tick_now = 12000000 \<rparr>"

definition brokenTick :: Tick where
  "brokenTick = \<lparr> getItemsError = None, deleteItemsError = Some (StoreError ''connection lost''),
                  getStepsError = None, deleteStepsError = None, tick_now = 12000000 \<rparr>"

section \<open>Properties of the state machine\<close>

lemma terminalStates_eq: "terminalStates = [SUCCESSFUL, COMPLETE_WITH_ERRORS, FAILED, CANCELED]"
  by (simp add: terminalStates_def stateKeys_def)

text \<open>
  The machine and the table of section 4.1 have the same entries, and \<open>canTransition\<close>
  accepts exactly the listed transitions that change the status: the one listed
  transition that does not, \<open>failed\<close> to \<open>failed\<close> on \<open>FAIL\<close>, is refused because the
  resulting state is not \<^verbatim>\<open>changed\<close>.
\<close>

lemma machine_is_spec_table: "node_on (stateNode c) = spec_table c"
  by (cases c) simp_all

lemma canTransition_table:
  "canTransition c d e \<longleftrightarrow>
     ((e, d) \<in> set (spec_table c) \<and> (c, e, d) \<noteq> (FAILED, EV_FAIL, FAILED))"
  by (cases c; cases e; cases d;
      simp add: canTransition_def transition_def matches_def transitionActions_def)

lemma not_listed_cannot: "\<not> spec_lists c e \<Longrightarrow> \<not> canTransition c d e"
  by (cases c; cases e; cases d;
      simp add: spec_lists_def canTransition_def transition_def matches_def
        transitionActions_def)

text \<open>
  C2. The claim: \<open>canTransition current desired event\<close> is true exactly when the table of
  section 4.1 lists \<open>event\<close> for \<open>current\<close> with target \<open>desired\<close>, and in particular
  \<open>canTransition failed failed FAIL\<close> is true. On the code the table does list
  \<open>FAIL\<close> for \<open>failed\<close> with target \<open>failed\<close> (the machine's \<^verbatim>\<open>on\<close> entry, commented
  "allow retrigger of failure to simplify error handling"), yet \<open>canTransition\<close> returns
  false there: the transition leaves the state value as it was and runs no action, so
  \<^verbatim>\<open>state.changed\<close> is false and the conjunction \<^verbatim>\<open>state.changed && state.matches(...)\<close> fails.
\<close>

theorem canTransition_failed_refail:
  "canTransition FAILED FAILED EV_FAIL = False
   \<and> (EV_FAIL, FAILED) \<in> set (spec_table FAILED)
   \<and> map_of (node_on (stateNode FAILED)) EV_FAIL = Some FAILED"
  by (simp add: canTransition_def transition_def matches_def transitionActions_def)

section \<open>Properties of the mutators\<close>

lemma includes_str_append: "includes_str p (a @ p @ b)"
proof (induction a)
  case Nil
  have "startsWith p (p @ b)" by (induction p) auto
  then show ?case by (cases "p @ b") auto
next
  case (Cons x xs)
  then show ?case by simp
qed

lemma names_default:
  "names_status (''Job status cannot be updated from '' @ statusString c @ '' to ''
                 @ statusString d @ ''.'') c"
  "names_status (''Job status cannot be updated from '' @ statusString c @ '' to ''
                 @ statusString d @ ''.'') d"
  unfolding names_status_def
  using includes_str_append [of "statusString c" "''Job status cannot be updated from ''"
          "'' to '' @ statusString d @ ''.''"]
        includes_str_append [of "statusString d"
          "''Job status cannot be updated from '' @ statusString c @ '' to ''" "''.''"]
  by simp_all

lemma validateTransition_rejects:
  "\<not> spec_lists c e \<Longrightarrow> validateTransition c d e msg =
     Inl (ConflictError (case msg of
            None \<Rightarrow> ''Job status cannot be updated from '' @ statusString c @ '' to ''
                    @ statusString d @ ''.''
          | Some m \<Rightarrow> m))"
  by (simp add: validateTransition_def not_listed_cannot)

text \<open>
  C3, as amended. For every Job and every public mutator invoked in a state for which the
  table of section 4.1 does not list the mutator's event, the call throws a ConflictError
  and leaves the Job (status, progress, messages and every other field) unchanged. For
  \<open>pause\<close>, \<open>fail\<close>, \<open>cancel\<close>, \<open>succeed\<close> and \<open>complete_with_errors\<close> the message is
  "Job status cannot be updated from (current) to (desired)." and names both statuses; for
  \<open>resume\<close> and \<open>skipPreview\<close> the message is the one the mutator passes ("Job status is
  (current) - only paused jobs can be resumed." and "... only previewing jobs can skip
  preview."), which names the current status only.
\<close>

theorem mutator_rejected:
  assumes "\<not> spec_lists (status j) (mutatorEvent m)"
  shows "snd (applyMutator m j) = j
     \<and> fst (applyMutator m j) = Inl (ConflictError
          (case m of
             Resume \<Rightarrow> ''Job status is '' @ statusString (status j)
                        @ '' - only paused jobs can be resumed.''
           | SkipPreview \<Rightarrow> ''Job status is '' @ statusString (status j)
                             @ '' - only previewing jobs can skip preview.''
           | _ \<Rightarrow> ''Job status cannot be updated from '' @ statusString (status j) @ '' to ''
                  @ statusString (mutatorTarget m) @ ''.''))
     \<and> (\<forall>msg. fst (applyMutator m j) = Inl (ConflictError msg) \<longrightarrow>
            names_status msg (status j)
            \<and> (m \<noteq> Resume \<and> m \<noteq> SkipPreview \<longrightarrow> names_status msg (mutatorTarget m)))"
proof -
  have r: "validateTransition (status j) (mutatorTarget m) (mutatorEvent m) msg =
     Inl (ConflictError (case msg of
            None \<Rightarrow> ''Job status cannot be updated from '' @ statusString (status j) @ '' to ''
                    @ statusString (mutatorTarget m) @ ''.''
          | Some m \<Rightarrow> m))" for msg
    using assms by (rule validateTransition_rejects)
  have n1: "names_status (''Job status is '' @ statusString (status j) @ rest) (status j)"
    for rest
    unfolding names_status_def by (rule includes_str_append)
  show ?thesis
    using r n1 names_default [of "status j" "mutatorTarget m"]
    by (cases m)
       (simp_all add: pause_def resume_def skipPreview_def fail_def cancel_def succeed_def
          complete_with_errors_def Let_def)
qed

text \<open>
  The claim as first stated (the message names the current and the desired status) fails
  for \<open>resume\<close> on an accepted job: the event is not listed, the desired status is
  \<open>running\<close>, and the message does not contain it.
\<close>

theorem resume_message_counterexample:
  "\<not> spec_lists (status (jobWith ACCEPTED None 0)) (mutatorEvent Resume)
   \<and> fst (applyMutator Resume (jobWith ACCEPTED None 0)) =
       Inl (ConflictError ''Job status is accepted - only paused jobs can be resumed.'')
   \<and> mutatorTarget Resume = RUNNING
   \<and> \<not> names_status ''Job status is accepted - only paused jobs can be resumed.'' RUNNING"
  by (simp add: jobWith_def spec_lists_def resume_def validateTransition_def canTransition_def
        transition_def matches_def names_status_def)

theorem mutator_rejected_witness:
  "\<not> spec_lists (status (jobWith RUNNING None 30)) (mutatorEvent Resume)
   \<and> applyMutator Resume (jobWith RUNNING None 30) =
       (Inl (ConflictError ''Job status is running - only paused jobs can be resumed.''),
        jobWith RUNNING None 30)
   \<and> applyMutator (Cancel None) (jobWith SUCCESSFUL None 100) =
       (Inl (ConflictError ''Job status cannot be updated from successful to canceled.''),
        jobWith SUCCESSFUL None 100)"
proof -
  have a: "\<not> spec_lists (status (jobWith RUNNING None 30)) (mutatorEvent Resume)"
    by (simp add: jobWith_def spec_lists_def)
  have b: "\<not> spec_lists (status (jobWith SUCCESSFUL None 100)) (mutatorEvent (Cancel None))"
    by (simp add: jobWith_def spec_lists_def)
  show ?thesis
    using a mutator_rejected [OF a] mutator_rejected [OF b]
    by (simp add: prod_eq_iff jobWith_def)
qed

section \<open>Properties of persistence\<close>

text \<open>
  C1, as amended. For every Job loaded from the store, if \<open>originalStatus\<close> is a terminal
  state (successful, complete_with_errors, failed or canceled) then \<open>save\<close> throws a
  ConflictError naming \<open>originalStatus\<close> and the in-memory status, and writes nothing:
  the database and the Job object are as they were. There is no exception for a job whose
  \<open>originalStatus\<close> and \<open>status\<close> are both failed.
\<close>

theorem save_terminal_barrier:
  assumes "originalStatus j = Some orig"
    and "orig = SUCCESSFUL \<or> orig = COMPLETE_WITH_ERRORS \<or> orig = FAILED \<or> orig = CANCELED"
  shows "save ops j db =
     (Inl (ConflictError (''Job status cannot be updated from '' @ statusString orig
                          @ '' to '' @ statusString (status j) @ ''.'')), j, db)"
  using assms by (auto simp add: save_def validateStatus_def terminalStates_eq)

text \<open>
  The claim as first stated excepts a job that was failed when loaded and is failed in
  memory; \<open>save\<close> refuses it like any other terminal job, even with writers that cannot
  fail.
\<close>

theorem save_failed_failed_counterexample:
  "save okOps (jobWith FAILED (Some FAILED) 40) sampleDb =
     (Inl (ConflictError ''Job status cannot be updated from failed to failed.''),
      jobWith FAILED (Some FAILED) 40, sampleDb)"
  by (simp add: save_def validateStatus_def terminalStates_eq jobWith_def)

theorem save_terminal_barrier_witness:
  "save okOps (jobWith PAUSED (Some SUCCESSFUL) 100) sampleDb =
     (Inl (ConflictError ''Job status cannot be updated from successful to paused.''),
      jobWith PAUSED (Some SUCCESSFUL) 100, sampleDb)
   \<and> save okOps (jobWith CANCELED (Some CANCELED) 12) sampleDb =
     (Inl (ConflictError ''Job status cannot be updated from canceled to canceled.''),
      jobWith CANCELED (Some CANCELED) 12, sampleDb)"
  using save_terminal_barrier [of "jobWith PAUSED (Some SUCCESSFUL) 100" SUCCESSFUL okOps sampleDb]
        save_terminal_barrier [of "jobWith CANCELED (Some CANCELED) 12" CANCELED okOps sampleDb]
  by (simp add: jobWith_def)

lemma save_frame:
  "user_work (snd (snd (save ops j db))) = user_work db \<and> jobID (fst (snd (save ops j db))) = jobID j"
proof (cases "validateStatus j")
  case (Inl e)
  then show ?thesis by (simp add: save_def)
next
  case (Inr u)
  define j2 where "j2 = (setMessage (truncateString ops (getMessage FAILED j) (TEXT_LIMIT - 1000)) FAILED j)
       \<lparr> request := truncateString ops (request (setMessage (truncateString ops (getMessage FAILED j) (TEXT_LIMIT - 1000)) FAILED j)) TEXT_LIMIT \<rparr>"
  have jid: "jobID j2 = jobID j" by (simp add: j2_def setMessage_def)
  show ?thesis
  proof (cases "recordSave ops j2 (job_tables db)")
    case (Inl e)
    then show ?thesis using Inr jid by (simp add: save_def Let_def j2_def)
  next
    case r: (Inr t1)
    obtain r2 t2 where l: "saveNewLinks ops (links j2) t1 = (r2, t2)" by (cases "saveNewLinks ops (links j2) t1")
    show ?thesis
    proof (cases r2)
      case (Inl e)
      then show ?thesis using Inr jid r l by (simp add: save_def Let_def j2_def)
    next
      case (Inr u2)
      then show ?thesis using \<open>validateStatus j = Inr u\<close> jid r l
        by (cases "setLabelsForJob ops (jobID j2) (username j2) (labels j2) t2") (simp_all add: save_def Let_def j2_def)
    qed
  qed
qed

lemma zero_other_rows:
  "filter (\<lambda>r. job_id r \<noteq> k) (map (\<lambda>r. if job_id r = k then r\<lparr> ready_count := 0 \<rparr> else r) xs)
     = filter (\<lambda>r. job_id r \<noteq> k) xs"
  by (induction xs) auto

lemma zero_running:
  "map running_count (map (\<lambda>r. if job_id r = k then r\<lparr> ready_count := 0 \<rparr> else r) xs) = map running_count xs"
  by (induction xs) auto

lemma updateStatus_jobID: "jobID (updateStatus s m j) = jobID j"
  by (simp add: updateStatus_def setMessage_def Let_def split: option.splits)

lemma pauseAndSave_user_work:
  assumes "fst (pauseAndSave ops j db) = Inr ()"
  shows "user_work (snd (snd (pauseAndSave ops j db))) = setReadyCountToZero (user_work db) (jobID j)"
proof -
  define j1 where "j1 = updateStatus PAUSED (Some (getMessage PAUSED j)) j"
  obtain r j2 db2 where s: "save ops j1 db = (r, j2, db2)" by (cases "save ops j1 db") auto
  have f: "user_work db2 = user_work db" "jobID j2 = jobID j"
    using save_frame [of ops j1 db] s by (simp_all add: j1_def updateStatus_jobID)
  show ?thesis
  proof (cases "validateTransition (status j) PAUSED EV_PAUSE None")
    case (Inl e)
    then show ?thesis using assms by (simp add: pauseAndSave_def)
  next
    case (Inr u)
    show ?thesis
    proof (cases r)
      case (Inl e)
      then show ?thesis using assms Inr s by (simp add: pauseAndSave_def j1_def [symmetric])
    next
      case r: (Inr u2)
      then show ?thesis using Inr s f by (simp add: pauseAndSave_def j1_def [symmetric])
    qed
  qed
qed

text \<open>
  C7. For every Job, when \<open>pauseAndSave\<close> completes (returns without throwing, which
  requires a state that permits the PAUSE event), every user_work row whose \<open>job_id\<close> is
  the Job's \<open>jobID\<close> has \<open>ready_count\<close> 0, the \<open>running_count\<close> values are as before,
  and the rows of other jobs are unchanged: the table is the old one with \<open>ready_count\<close>
  set to 0 in exactly the rows of this job.
\<close>

theorem pauseAndSave_ready_zero:
  assumes "fst (pauseAndSave ops j db) = Inr ()"
  shows "(\<forall>r \<in> set (user_work (snd (snd (pauseAndSave ops j db)))). job_id r = jobID j \<longrightarrow> ready_count r = 0)
     \<and> map running_count (user_work (snd (snd (pauseAndSave ops j db)))) = map running_count (user_work db)
     \<and> filter (\<lambda>r. job_id r \<noteq> jobID j) (user_work (snd (snd (pauseAndSave ops j db))))
         = filter (\<lambda>r. job_id r \<noteq> jobID j) (user_work db)
     \<and> user_work (snd (snd (pauseAndSave ops j db))) =
         map (\<lambda>r. if job_id r = jobID j then r\<lparr> ready_count := 0 \<rparr> else r) (user_work db)"
proof -
  have u: "user_work (snd (snd (pauseAndSave ops j db))) =
         map (\<lambda>r. if job_id r = jobID j then r\<lparr> ready_count := 0 \<rparr> else r) (user_work db)"
    using pauseAndSave_user_work [OF assms] by (simp add: setReadyCountToZero_def)
  have a: "\<forall>r \<in> set (map (\<lambda>r. if job_id r = jobID j then r\<lparr> ready_count := 0 \<rparr> else r) (user_work db)).
             job_id r = jobID j \<longrightarrow> ready_count r = 0"
    by auto
  show ?thesis unfolding u using a zero_running zero_other_rows by blast
qed

text \<open>With writers that succeed, a running job loaded as running is paused and saved.\<close>

lemma save_ok_when:
  assumes "validateStatus j = Inr ()" "links j = []"
  shows "fst (save okOps j db) = Inr ()"
  using assms by (simp add: save_def okOps_def Let_def setMessage_def)

lemma pauseAndSave_ok_when:
  assumes "canTransition (status j) PAUSED EV_PAUSE" "originalStatus j = Some RUNNING" "links j = []"
  shows "fst (pauseAndSave okOps j db) = Inr ()"
proof -
  define j1 where "j1 = updateStatus PAUSED (Some (getMessage PAUSED j)) j"
  have "validateStatus j1 = Inr ()" "links j1 = []"
    using assms by (simp_all add: j1_def validateStatus_def terminalStates_eq updateStatus_def
        setMessage_def Let_def)
  then have "fst (save okOps j1 db) = Inr ()" by (rule save_ok_when)
  then show ?thesis using assms(1)
    by (cases "save okOps j1 db") (simp add: pauseAndSave_def validateTransition_def j1_def [symmetric])
qed

theorem pauseAndSave_ready_zero_witness:
  "fst (pauseAndSave okOps (jobWith RUNNING (Some RUNNING) 40) sampleDb) = Inr ()
   \<and> map ready_count (user_work (snd (snd (pauseAndSave okOps (jobWith RUNNING (Some RUNNING) 40) sampleDb)))) = [0, 3, 0]
   \<and> map running_count (user_work (snd (snd (pauseAndSave okOps (jobWith RUNNING (Some RUNNING) 40) sampleDb)))) = [2, 1, 0]"
proof -
  define j0 where "j0 = jobWith RUNNING (Some RUNNING) 40"
  have c: "canTransition (status j0) PAUSED EV_PAUSE"
    by (simp add: j0_def jobWith_def canTransition_def transition_def matches_def transitionActions_def)
  have ok: "fst (pauseAndSave okOps j0 sampleDb) = Inr ()"
    by (rule pauseAndSave_ok_when [OF c]) (simp_all add: j0_def jobWith_def)
  have jid: "jobID j0 = ''job-1''" by (simp add: j0_def jobWith_def)
  have u: "user_work (snd (snd (pauseAndSave okOps j0 sampleDb))) =
      map (\<lambda>r. if job_id r = ''job-1'' then r\<lparr> ready_count := 0 \<rparr> else r) (user_work sampleDb)"
    using pauseAndSave_ready_zero [OF ok] unfolding jid by blast
  have "map ready_count (user_work (snd (snd (pauseAndSave okOps j0 sampleDb)))) = [0, 3, 0]"
       "map running_count (user_work (snd (snd (pauseAndSave okOps j0 sampleDb)))) = [2, 1, 0]"
    unfolding u by (simp_all add: sampleDb_def)
  then show ?thesis using ok unfolding j0_def by blast
qed

section \<open>Properties of the progress rollup\<close>

lemma roundEven_int [simp]: "roundEven (of_int m) = m"
  by (simp add: roundEven_def)

lemma roundEven_nonneg: "0 \<le> y \<Longrightarrow> 0 \<le> roundEven y"
  by (auto simp add: roundEven_def Let_def)

text \<open>Evaluation of rounding at a positive or negative number whose binade is known.\<close>

lemma exponent_eq:
  assumes "2 powi e \<le> \<bar>x\<bar>" "\<bar>x\<bar> < 2 powi (e + 1)"
  shows "\<lfloor>log 2 \<bar>x\<bar>\<rfloor> = e"
proof -
  have p: "0 < \<bar>x\<bar>" using assms(1) by (smt (verit) zero_less_power_int)
  have a: "(2::real) powr (of_int e) = 2 powi e" by (rule powr_real_of_int') simp_all
  have b: "(2::real) powr (of_int (e + 1)) = 2 powi (e + 1)" by (rule powr_real_of_int') simp_all
  have "(2::real) powr (of_int e) \<le> \<bar>x\<bar> \<and> \<bar>x\<bar> < 2 powr (of_int (e + 1))"
    unfolding a b using assms by simp
  then show ?thesis using floor_log_eq_powr_iff [OF p, of 2 e] by simp
qed

lemma round64_eval:
  assumes "x \<noteq> 0" "2 powi e \<le> \<bar>x\<bar>" "\<bar>x\<bar> < 2 powi (e + 1)"
  shows "round64 x =
     (if 2 ^ 1024 \<le> \<bar>sgn x * of_int (roundEven (\<bar>x\<bar> / 2 powi (max e (- 1022) - 52)))
                        * 2 powi (max e (- 1022) - 52)\<bar>
      then (if 0 < x then PInf else NInf)
      else Fin (sgn x * of_int (roundEven (\<bar>x\<bar> / 2 powi (max e (- 1022) - 52)))
                * 2 powi (max e (- 1022) - 52)))"
  using assms(1) by (simp add: round64_def exponent_eq [OF assms(2,3)] Let_def)

lemma exponent_upper:
  assumes "x \<noteq> 0" "\<bar>x\<bar> < 2 powi t"
  shows "\<lfloor>log 2 \<bar>x\<bar>\<rfloor> < t"
proof -
  have p: "0 < \<bar>x\<bar>" using assms(1) by simp
  have a: "(2::real) powr (of_int t) = 2 powi t" by (rule powr_real_of_int') simp_all
  have "log 2 \<bar>x\<bar> < of_int t"
    using assms(2) p by (simp add: log_less_iff a)
  then show ?thesis by (simp add: floor_less_iff)
qed

lemma representable_dyadic:
  assumes m: "\<bar>m\<bar> < 2 ^ 53" and k: "- 1074 \<le> k"
    and b: "\<bar>of_int m * 2 powi k\<bar> < (2::real) ^ 1024"
  shows "round64 (of_int m * 2 powi k) = Fin (of_int m * 2 powi k)"
proof (cases "m = 0")
  case True
  then show ?thesis by (simp add: round64_def)
next
  case False
  define x :: real where "x = of_int m * 2 powi k"
  have x0: "x \<noteq> 0" using False by (simp add: x_def)
  have "\<bar>x\<bar> = of_int \<bar>m\<bar> * 2 powi k" by (simp add: x_def abs_mult)
  also have "\<dots> < 2 ^ 53 * 2 powi k"
  proof -
    have "(of_int \<bar>m\<bar> :: real) < of_int (2 ^ 53)" using m by (simp only: of_int_less_iff)
    then show ?thesis by simp
  qed
  also have "\<dots> = 2 powi (k + 53)" by (simp add: power_int_add)
  finally have "\<lfloor>log 2 \<bar>x\<bar>\<rfloor> < k + 53" by (rule exponent_upper [OF x0])
  define e where "e = max \<lfloor>log 2 \<bar>x\<bar>\<rfloor> (- 1022)"
  have e: "e - 52 \<le> k" using \<open>\<lfloor>log 2 \<bar>x\<bar>\<rfloor> < k + 53\<close> k by (simp add: e_def)
  define d where "d = nat (k - (e - 52))"
  have kd: "k = (e - 52) + int d" using e by (simp add: d_def)
  have q: "\<bar>x\<bar> / 2 powi (e - 52) = of_int (\<bar>m\<bar> * 2 ^ d)"
  proof -
    have "\<bar>x\<bar> = of_int \<bar>m\<bar> * (2 powi (e - 52) * 2 ^ d)"
      by (simp add: x_def abs_mult) (simp add: kd power_int_add)
    then show ?thesis by simp
  qed
  have y: "sgn x * of_int (roundEven (\<bar>x\<bar> / 2 powi (e - 52))) * 2 powi (e - 52) = x"
  proof -
    have "sgn x * of_int (roundEven (\<bar>x\<bar> / 2 powi (e - 52))) * 2 powi (e - 52)
          = sgn x * (\<bar>x\<bar> / 2 powi (e - 52)) * 2 powi (e - 52)"
      unfolding q by (simp only: roundEven_int)
    also have "\<dots> = sgn x * \<bar>x\<bar>" by simp
    also have "\<dots> = x" by (simp add: sgn_mult_abs)
    finally show ?thesis .
  qed
  have "round64 x = Fin x"
    using x0 b unfolding round64_def Let_def e_def [symmetric] y by (simp add: x_def)
  then show ?thesis by (simp add: x_def)
qed

lemma round64_nonneg:
  assumes "0 \<le> x"
  shows "round64 x = PInf \<or> (\<exists>y. 0 \<le> y \<and> round64 x = Fin y)"
proof (cases "x = 0")
  case True
  then show ?thesis by (simp add: round64_def)
next
  case False
  then have p: "0 < x" using assms by simp
  define q :: real where "q = 2 powi (max \<lfloor>log 2 \<bar>x\<bar>\<rfloor> (- 1022) - 52)"
  have q: "0 < q" by (simp add: q_def)
  have "0 \<le> \<bar>x\<bar> / q" using q by simp
  then have n: "0 \<le> roundEven (\<bar>x\<bar> / q)" by (rule roundEven_nonneg)
  have y: "0 \<le> sgn x * of_int (roundEven (\<bar>x\<bar> / q)) * q" using p q n by simp
  show ?thesis
    using False p y unfolding round64_def Let_def q_def [symmetric] by auto
qed

lemma foldl_sumLeft:
  "foldl (\<lambda>sum step. d_add sum (f step)) acc steps = sumLeft acc (map f steps)"
  by (induction steps arbitrary: acc) simp_all

lemma minWith99_cases:
  "minWith99 r = FloorNaN \<or> minWith99 r = FloorNegInf \<or> (\<exists>c. c \<le> 99 \<and> minWith99 r = FloorInt c)"
  by (cases r) simp_all

lemma updateProgress_binary64:
  "updateProgress binary64 stepUpdate loaded j =
     (case rollupCandidate (walkSteps stepUpdate None loaded) of
        FloorInt c \<Rightarrow> if progress j < c then j\<lparr> progress := c \<rparr> else j
      | _ \<Rightarrow> j)"
proof -
  define r where "r = rollupCandidate (walkSteps stepUpdate None loaded)"
  have u: "updateProgress binary64 stepUpdate loaded j =
     (if lessThanResult (progress j) r
      then (case r of FloorInt p \<Rightarrow> j\<lparr> progress := p \<rparr> | _ \<Rightarrow> j) else j)"
    unfolding r_def rollupCandidate_def updateProgress_def
    by (simp add: binary64_def Let_def foldl_sumLeft)
  have "r = minWith99 (d_floor (d_div
            (d_max (Fin 0) (sumLeft (Fin 0) (map (\<lambda>s. d_mul (progress_weight s) (ws_progress s))
               (walkSteps stepUpdate None loaded))))
            (if d_gt (sumLeft (Fin 0) (map progress_weight (walkSteps stepUpdate None loaded))) (Fin 0)
             then sumLeft (Fin 0) (map progress_weight (walkSteps stepUpdate None loaded)) else Fin 1)))"
    by (simp add: r_def rollupCandidate_def Let_def)
  then have "r = FloorNaN \<or> r = FloorNegInf \<or> (\<exists>c. c \<le> 99 \<and> r = FloorInt c)"
    using minWith99_cases by metis
  then show ?thesis unfolding u r_def [symmetric] by auto
qed

lemma rollupCandidate_range:
  "rollupCandidate steps = FloorNaN
   \<or> (\<exists>c. 0 \<le> c \<and> c \<le> 99 \<and> rollupCandidate steps = FloorInt c)"
proof -
  define X where "X = sumLeft (Fin 0) (map (\<lambda>s. d_mul (progress_weight s) (ws_progress s)) steps)"
  define Wt where "Wt = sumLeft (Fin 0) (map progress_weight steps)"
  define weighted where "weighted = d_max (Fin 0) X"
  define total where "total = (if d_gt Wt (Fin 0) then Wt else Fin 1)"
  have w: "weighted = NaN \<or> weighted = PInf \<or> (\<exists>a. 0 \<le> a \<and> weighted = Fin a)"
    unfolding weighted_def by (cases X) auto
  have t: "total = PInf \<or> (\<exists>b. 0 < b \<and> total = Fin b)"
    unfolding total_def by (cases Wt) auto
  have q: "d_div weighted total = NaN \<or> d_div weighted total = PInf
           \<or> (\<exists>y. 0 \<le> y \<and> d_div weighted total = Fin y)"
  proof -
    have "d_div (Fin a) (Fin b) = PInf \<or> (\<exists>y. 0 \<le> y \<and> d_div (Fin a) (Fin b) = Fin y)"
      if "0 \<le> a" "0 < b" for a b
    proof -
      have "0 \<le> a / b" using that by simp
      from round64_nonneg [OF this] show ?thesis using that by simp
    qed
    note fin = this
    from w t show ?thesis
    proof (elim disjE exE conjE)
      fix a b assume "0 \<le> a" "weighted = Fin a" "0 < b" "total = Fin b"
      then show ?thesis using fin [of a b] by auto
    qed simp_all
  qed
  have r: "rollupCandidate steps = minWith99 (d_floor (d_div weighted total))"
    by (simp add: rollupCandidate_def Let_def weighted_def total_def X_def Wt_def)
  have "0 \<le> min \<lfloor>y\<rfloor> 99 \<and> min \<lfloor>y\<rfloor> 99 \<le> 99" if "0 \<le> y" for y :: real
    using that by simp
  then show ?thesis unfolding r using q by auto
qed

lemma sumLeft_exact:
  "exactSum acc xs \<Longrightarrow> sumLeft (Fin acc) (map Fin xs) = Fin (acc + sum_list xs)"
  by (induction xs arbitrary: acc) (simp_all add: add.assoc)

lemma isFinite_realOf: "isFinite d \<Longrightarrow> d = Fin (realOf d)"
  by (cases d) simp_all

lemma int_clamp: "0 \<le> k \<Longrightarrow> min k 99 = max 0 (min 99 k)" for k :: int
  by arith

lemma int_clamp_neg: "k < 0 \<Longrightarrow> max 0 (min 99 k) = 0" for k :: int
  by arith

lemma floor_clamp:
  fixes P T :: real
  assumes "0 < T"
  shows "min \<lfloor>max 0 P / T\<rfloor> 99 = max 0 (min 99 \<lfloor>P / T\<rfloor>)"
proof (cases "0 \<le> P")
  case True
  then have "0 \<le> P / T" using assms by simp
  then have k: "0 \<le> \<lfloor>P / T\<rfloor>" by (simp only: zero_le_floor)
  have m: "max 0 P = P" using True by simp
  show ?thesis unfolding m by (rule int_clamp [OF k])
next
  case False
  then have "P / T < 0" using assms by (simp add: divide_neg_pos)
  then have k: "\<lfloor>P / T\<rfloor> < 0" by (simp only: floor_less_zero)
  have m: "max 0 P = 0" using False by simp
  show ?thesis unfolding m int_clamp_neg [OF k] by simp
qed

lemma rollupCandidate_exact:
  assumes "exactRollup steps"
  shows "rollupCandidate steps = FloorInt (exact_candidate steps)"
proof -
  define W where "W = sum_list (weightsOf steps)"
  define P where "P = sum_list (productsOf steps)"
  define T where "T = (if 0 < W then W else 1)"
  have T: "0 < T" by (simp add: T_def)
  have all: "(\<forall>s \<in> set steps. isFinite (progress_weight s) \<and> isFinite (ws_progress s)
         \<and> round64 (realOf (progress_weight s) * realOf (ws_progress s))
             = Fin (realOf (progress_weight s) * realOf (ws_progress s)))
      \<and> exactSum 0 (weightsOf steps) \<and> exactSum 0 (productsOf steps)
      \<and> round64 (max 0 P / T) = Fin (max 0 P / T)"
    using assms unfolding exactRollup_def Let_def list_all_iff W_def P_def T_def .
  from all have fin: "\<forall>s \<in> set steps. isFinite (progress_weight s) \<and> isFinite (ws_progress s)
         \<and> round64 (realOf (progress_weight s) * realOf (ws_progress s))
             = Fin (realOf (progress_weight s) * realOf (ws_progress s))"
    and ew: "exactSum 0 (weightsOf steps)" and ep: "exactSum 0 (productsOf steps)"
    and eq: "round64 (max 0 P / T) = Fin (max 0 P / T)"
    by blast+
  have mw: "map progress_weight steps = map Fin (weightsOf steps)"
    unfolding weightsOf_def using fin by (auto simp add: isFinite_realOf [symmetric])
  have mp: "map (\<lambda>s. d_mul (progress_weight s) (ws_progress s)) steps = map Fin (productsOf steps)"
  proof -
    have "d_mul (progress_weight s) (ws_progress s)
            = Fin (realOf (progress_weight s) * realOf (ws_progress s))" if "s \<in> set steps" for s
    proof -
      have "progress_weight s = Fin (realOf (progress_weight s))"
        "ws_progress s = Fin (realOf (ws_progress s))"
        using fin that by (simp_all add: isFinite_realOf [symmetric])
      then have "d_mul (progress_weight s) (ws_progress s)
            = round64 (realOf (progress_weight s) * realOf (ws_progress s))"
        by (metis d_mul.simps(1))
      then show ?thesis using fin that by simp
    qed
    then show ?thesis by (simp add: productsOf_def)
  qed
  have sw: "sumLeft (Fin 0) (map progress_weight steps) = Fin W"
    unfolding mw W_def using sumLeft_exact [OF ew] by simp
  have sp: "sumLeft (Fin 0) (map (\<lambda>s. d_mul (progress_weight s) (ws_progress s)) steps) = Fin P"
    unfolding mp P_def using sumLeft_exact [OF ep] by simp
  have tot: "(if d_gt (Fin W) (Fin 0) then Fin W else Fin 1) = Fin T"
    by (simp add: T_def)
  have "rollupCandidate steps = minWith99 (d_floor (d_div (d_max (Fin 0) (Fin P)) (Fin T)))"
    unfolding rollupCandidate_def Let_def sw sp tot ..
  also have "\<dots> = FloorInt (min \<lfloor>max 0 P / T\<rfloor> 99)"
    using T eq by simp
  also have "\<dots> = FloorInt (exact_candidate steps)"
    unfolding floor_clamp [OF T]
    by (simp only: exact_candidate_def Let_def W_def P_def T_def)
  finally show ?thesis .
qed

lemma representable_int:
  assumes "\<bar>m\<bar> < 2 ^ 53"
  shows "round64 (of_int m) = Fin (of_int m)"
proof -
  have "\<bar>of_int m :: real\<bar> < of_int (2 ^ 53)"
    using assms by (simp only: of_int_abs [symmetric] of_int_less_iff)
  then have "\<bar>of_int m * 2 powi 0 :: real\<bar> < 2 ^ 1024" by simp
  from representable_dyadic [OF assms _ this] show ?thesis by simp
qed

lemma representable_values:
  "round64 1 = Fin 1" "round64 3 = Fin 3" "round64 4 = Fin 4" "round64 30 = Fin 30"
  "round64 60 = Fin 60" "round64 120 = Fin 120"
  "round64 (1 / 2) = Fin (1 / 2)" "round64 (1 / 8) = Fin (1 / 8)"
  using representable_int [of 1] representable_int [of 3] representable_int [of 4]
    representable_int [of 30] representable_int [of 60] representable_int [of 120]
    representable_dyadic [of 1 "- 1"] representable_dyadic [of 1 "- 3"]
  by simp_all

lemma round64_zero: "round64 0 = Fin 0"
  by (simp add: round64_def)

lemma spec_agrees:
  "sum_list (weightsOf steps) \<le> 0 \<or> 1 \<le> sum_list (weightsOf steps)
   \<Longrightarrow> exact_candidate steps = spec_candidate steps"
  by (auto simp add: exact_candidate_def spec_candidate_def Let_def max_def)

text \<open>
  C4, as amended. For every Job and every list of workflow steps with weights \<open>weight\<^sub>i\<close>
  and step progresses \<open>progress\<^sub>i\<close>, \<open>updateProgress\<close> computes in double arithmetic,
  every sum, product and quotient rounded to the nearest double, the candidate
  \<^verbatim>\<open>Math.min(Math.floor(Math.max(0, sum(weight_i * progress_i)) / total), 99)\<close>, where
  \<open>total\<close> is the sum of the weights when that sum is positive and 1 otherwise. The
  candidate is NaN or an integer in 0..99. The Job's progress is set to the candidate
  exactly when the candidate is an integer strictly greater than the current progress, and
  the Job is unchanged otherwise. When the numbers are finite and no operation rounds, the
  candidate is \<open>floor (sum (weight\<^sub>i * progress\<^sub>i) / total)\<close> clamped to 0..99, and this is
  the candidate with \<open>total = max 1 (sum weight\<^sub>i)\<close> whenever the sum of the weights is at
  most 0 or at least 1.
\<close>

theorem updateProgress_rollup:
  "updateProgress binary64 stepUpdate loaded j =
     (case rollupCandidate (walkSteps stepUpdate None loaded) of
        FloorInt c \<Rightarrow> if progress j < c then j\<lparr> progress := c \<rparr> else j
      | _ \<Rightarrow> j)
   \<and> (rollupCandidate steps = FloorNaN
       \<or> (\<exists>c. 0 \<le> c \<and> c \<le> 99 \<and> rollupCandidate steps = FloorInt c))
   \<and> (exactRollup steps \<longrightarrow> rollupCandidate steps = FloorInt (exact_candidate steps))
   \<and> (exactRollup steps
        \<and> (sum_list (weightsOf steps) \<le> 0 \<or> 1 \<le> sum_list (weightsOf steps))
        \<longrightarrow> rollupCandidate steps = FloorInt (spec_candidate steps))"
  using updateProgress_binary64 [of stepUpdate loaded j] rollupCandidate_range [of steps]
    rollupCandidate_exact [of steps] spec_agrees [of steps]
  by auto

lemma halfWeight_candidate: "rollupCandidate halfWeightSteps = FloorInt 1"
  by (simp add: rollupCandidate_def halfWeightSteps_def stepWith_def representable_values)

text \<open>
  The claim as first stated divides by \<open>max 1 (sum weight\<^sub>i)\<close>. One step of weight 1/2
  and progress 1 gives the stated candidate 0, which is not above the current progress 0,
  yet the code divides by 1/2 and sets the progress to 1. No operation rounds here.
\<close>

theorem updateProgress_half_weight_counterexample:
  "progress (jobWith RUNNING None 0) = 0
   \<and> spec_candidate (walkSteps keepStep None halfWeightSteps) = 0
   \<and> progress (updateProgress binary64 keepStep halfWeightSteps (jobWith RUNNING None 0)) = 1"
proof -
  have w: "walkSteps keepStep None halfWeightSteps = halfWeightSteps"
    by (simp add: keepStep_def halfWeightSteps_def)
  have s: "spec_candidate halfWeightSteps = 0"
    by (simp add: spec_candidate_def halfWeightSteps_def stepWith_def productsOf_def weightsOf_def)
  have p: "progress (jobWith RUNNING None 0) = 0" by (simp add: jobWith_def)
  show ?thesis
    unfolding updateProgress_binary64 w halfWeight_candidate using s p by simp
qed

lemma scenarioS5_exact: "exactRollup scenarioS5"
  by (simp add: exactRollup_def scenarioS5_def stepWith_def productsOf_def weightsOf_def
        representable_values round64_zero)

lemma percentSteps_exact: "exactRollup percentSteps"
  by (simp add: exactRollup_def percentSteps_def stepWith_def productsOf_def weightsOf_def
        representable_values round64_zero)

theorem updateProgress_rollup_witness:
  "exactRollup scenarioS5
   \<and> rollupCandidate scenarioS5 = FloorInt 0
   \<and> updateProgress binary64 keepStep scenarioS5 (jobWith RUNNING None 10) = jobWith RUNNING None 10
   \<and> exactRollup percentSteps
   \<and> 1 \<le> sum_list (weightsOf percentSteps)
   \<and> spec_candidate percentSteps = 30
   \<and> rollupCandidate percentSteps = FloorInt 30
   \<and> updateProgress binary64 keepStep percentSteps (jobWith RUNNING None 10) = jobWith RUNNING None 30"
proof -
  have w5: "walkSteps keepStep None scenarioS5 = scenarioS5"
    by (simp add: keepStep_def scenarioS5_def)
  have wp: "walkSteps keepStep None percentSteps = percentSteps"
    by (simp add: keepStep_def percentSteps_def)
  have c5: "exact_candidate scenarioS5 = 0"
    by (simp add: exact_candidate_def scenarioS5_def stepWith_def productsOf_def weightsOf_def)
  have sw: "1 \<le> sum_list (weightsOf percentSteps)"
    by (simp add: percentSteps_def stepWith_def weightsOf_def)
  have sp: "spec_candidate percentSteps = 30"
    by (simp add: spec_candidate_def percentSteps_def stepWith_def productsOf_def weightsOf_def)
  have "rollupCandidate scenarioS5 = FloorInt (exact_candidate scenarioS5)"
    using updateProgress_rollup [of keepStep scenarioS5 "jobWith RUNNING None 10" scenarioS5]
      scenarioS5_exact by blast
  then have r5: "rollupCandidate scenarioS5 = FloorInt 0" unfolding c5 .
  have "rollupCandidate percentSteps = FloorInt (spec_candidate percentSteps)"
    using updateProgress_rollup [of keepStep percentSteps "jobWith RUNNING None 10" percentSteps]
      percentSteps_exact sw by blast
  then have rp: "rollupCandidate percentSteps = FloorInt 30" unfolding sp .
  have u5: "updateProgress binary64 keepStep scenarioS5 (jobWith RUNNING None 10) = jobWith RUNNING None 10"
    using updateProgress_rollup [of keepStep scenarioS5 "jobWith RUNNING None 10" scenarioS5]
    unfolding w5 r5 by (simp add: jobWith_def)
  have up: "updateProgress binary64 keepStep percentSteps (jobWith RUNNING None 10) = jobWith RUNNING None 30"
    using updateProgress_rollup [of keepStep percentSteps "jobWith RUNNING None 10" percentSteps]
    unfolding wp rp by (simp add: jobWith_def)
  show ?thesis using scenarioS5_exact percentSteps_exact r5 rp u5 up sw sp by blast
qed

subsection \<open>Rounding in the rollup\<close>

lemma round64_pos_eval:
  assumes "0 < x" "2 powi e \<le> x" "x < 2 powi (e + 1)" "- 1022 \<le> e"
    and "roundEven (x / 2 powi (e - 52)) = n"
    and "of_int n * 2 powi (e - 52) < (2::real) ^ 1024"
  shows "round64 x = Fin (of_int n * 2 powi (e - 52))"
proof -
  have a: "\<bar>x\<bar> = x" "sgn x = 1" "x \<noteq> 0" using assms(1) by simp_all
  have m: "max e (- 1022) = e" using assms(4) by simp
  have n: "0 \<le> n"
    using roundEven_nonneg [of "x / 2 powi (e - 52)"] assms(1,5) by simp
  then have y: "\<bar>of_int n * 2 powi (e - 52) :: real\<bar> = of_int n * 2 powi (e - 52)"
    by simp
  show ?thesis
    using round64_eval [of x e] assms(2,3,5,6) unfolding a m by (simp add: a y)
qed

lemma tenth: "round64 (1 / 10) = Fin (3602879701896397 / 36028797018963968)"
  using round64_pos_eval [of "1 / 10" "- 4" 7205759403792794]
  by (simp add: roundEven_def Let_def)

lemma fifth: "round64 (1 / 5) = Fin (3602879701896397 / 18014398509481984)"
  using round64_pos_eval [of "1 / 5" "- 3" 7205759403792794]
  by (simp add: roundEven_def Let_def)

lemma tenth_times_30: "round64 (3602879701896397 / 36028797018963968 * 30) = Fin 3"
  using round64_pos_eval [of "3602879701896397 / 36028797018963968 * 30" 1 6755399441055744]
  by (simp add: roundEven_def Let_def)

lemma fifth_times_30: "round64 (3602879701896397 / 18014398509481984 * 30) = Fin 6"
  using round64_pos_eval [of "3602879701896397 / 18014398509481984 * 30" 2 6755399441055744]
  by (simp add: roundEven_def Let_def)

lemma tenth_plus_fifth:
  "round64 (3602879701896397 / 36028797018963968 + 3602879701896397 / 18014398509481984)
     = Fin (1351079888211149 / 4503599627370496)"
  using round64_pos_eval [of "3602879701896397 / 36028797018963968 + 3602879701896397 / 18014398509481984"
          "- 2" 5404319552844596]
  by (simp add: roundEven_def Let_def)

lemma nine_by_three_tenths:
  "round64 (9 / (1351079888211149 / 4503599627370496)) = Fin (8444249301319679 / 281474976710656)"
  using round64_pos_eval [of "9 / (1351079888211149 / 4503599627370496)" 4 8444249301319679]
  by (simp add: roundEven_def Let_def)

lemma tenth_times_43:
  "round64 (3602879701896397 / 36028797018963968 * 43) = Fin (4841369599423283 / 1125899906842624)"
  using round64_pos_eval [of "3602879701896397 / 36028797018963968 * 43" 2 4841369599423283]
  by (simp add: roundEven_def Let_def)

lemma forty_three_by_tenth:
  "round64 (4841369599423283 / 1125899906842624 / (3602879701896397 / 36028797018963968))
     = Fin (6051711999279103 / 140737488355328)"
  using round64_pos_eval [of "4841369599423283 / 1125899906842624 / (3602879701896397 / 36028797018963968)"
          5 6051711999279103]
  by (simp add: roundEven_def Let_def)

lemma representable_more:
  "round64 (3602879701896397 / 36028797018963968) = Fin (3602879701896397 / 36028797018963968)"
  "round64 (4841369599423283 / 1125899906842624) = Fin (4841369599423283 / 1125899906842624)"
  "round64 9 = Fin 9"
  using representable_dyadic [of 3602879701896397 "- 55"]
    representable_dyadic [of 4841369599423283 "- 50"] representable_int [of 9]
  by simp_all

text \<open>
  Rounding is visible in the rollup: with weights 0.1 and 0.2 (the nearest doubles) and
  step progress 30 the candidate is 29, and with weight 0.1 and step progress 43 it is 42,
  where exact arithmetic gives 30 and 43.
\<close>

lemma binary64_rollup_rounds:
  "rollupCandidate tenthFifthSteps = FloorInt 29"
  "rollupCandidate tenthSteps = FloorInt 42"
  using tenth_times_30 fifth_times_30 tenth_plus_fifth nine_by_three_tenths
    tenth_times_43 forty_three_by_tenth representable_more representable_values
  by (simp_all add: rollupCandidate_def tenthFifthSteps_def tenthSteps_def stepWith_def
        tenth fifth)

lemma exact_arithmetic_differs:
  "exact_candidate tenthFifthSteps = 30" "exact_candidate tenthSteps = 43"
  by (simp_all add: exact_candidate_def tenthFifthSteps_def tenthSteps_def stepWith_def
        productsOf_def weightsOf_def tenth fifth)

section \<open>Progress is monotone\<close>

lemma updateStatus_progress:
  "progress (updateStatus s m j) = (if s = SUCCESSFUL \<or> s = COMPLETE_WITH_ERRORS then 100 else progress j)"
  by (simp add: updateStatus_def setMessage_def Let_def split: option.splits)

lemma applyMutator_progress:
  "progress (snd (applyMutator m j)) = progress j \<or> progress (snd (applyMutator m j)) = 100"
  by (cases m)
     (simp_all add: pause_def resume_def skipPreview_def fail_def cancel_def succeed_def
        complete_with_errors_def updateStatus_progress Let_def split: sum.splits)

text \<open>Whatever the arithmetic returns, the tail of \<open>updateProgress\<close> either keeps the Job or
  raises its progress to an integer of at most 99.\<close>

lemma rollup_tail:
  "(if lessThanResult (progress j) (minWith99 r)
    then (case minWith99 r of FloorInt p \<Rightarrow> j\<lparr> progress := p \<rparr> | _ \<Rightarrow> j) else j) = j
   \<or> (\<exists>p. progress j < p \<and> p \<le> 99
         \<and> (if lessThanResult (progress j) (minWith99 r)
             then (case minWith99 r of FloorInt p \<Rightarrow> j\<lparr> progress := p \<rparr> | _ \<Rightarrow> j) else j)
            = j\<lparr> progress := p \<rparr>)"
proof (cases r)
  case (FloorInt k)
  show ?thesis
  proof (cases "progress j < min k 99")
    case True
    then have "progress j < min k 99 \<and> min k 99 \<le> 99
        \<and> (if lessThanResult (progress j) (minWith99 r)
             then (case minWith99 r of FloorInt p \<Rightarrow> j\<lparr> progress := p \<rparr> | _ \<Rightarrow> j) else j)
            = j\<lparr> progress := min k 99 \<rparr>"
      using FloorInt by simp
    then show ?thesis by blast
  next
    case False
    then show ?thesis using FloorInt by auto
  qed
next
  case FloorPosInf
  show ?thesis
  proof (cases "progress j < 99")
    case True
    then have "progress j < 99 \<and> (99::int) \<le> 99
        \<and> (if lessThanResult (progress j) (minWith99 r)
             then (case minWith99 r of FloorInt p \<Rightarrow> j\<lparr> progress := p \<rparr> | _ \<Rightarrow> j) else j)
            = j\<lparr> progress := 99 \<rparr>"
      using FloorPosInf by simp
    then show ?thesis by blast
  next
    case False
    then show ?thesis using FloorPosInf by auto
  qed
qed simp_all

lemma updateProgress_cases:
  "updateProgress ar stepUpdate loaded j = j
   \<or> (\<exists>p. progress j < p \<and> p \<le> 99 \<and> updateProgress ar stepUpdate loaded j = j\<lparr> progress := p \<rparr>)"
  unfolding updateProgress_def Let_def by (rule rollup_tail)

lemma updateProgress_progress:
  "progress (updateProgress ar stepUpdate loaded j) = progress j
   \<or> (progress j < progress (updateProgress ar stepUpdate loaded j)
      \<and> progress (updateProgress ar stepUpdate loaded j) \<le> 99)"
  using updateProgress_cases [of ar stepUpdate loaded j] by auto

lemma applyOp_progress:
  assumes "progress j \<le> 100"
  shows "progress j \<le> progress (applyOp ar stepUpdate op j) \<and> progress (applyOp ar stepUpdate op j) \<le> 100"
proof (cases op)
  case (Mutate m)
  then show ?thesis using assms applyMutator_progress [of m j] by auto
next
  case (UpdateProgress loaded)
  then show ?thesis using assms updateProgress_progress [of ar stepUpdate loaded j] by auto
qed

lemma runOps_sorted:
  "progress j \<le> 100 \<Longrightarrow> sorted (map progress (j # runOps ar stepUpdate ops j))"
proof (induction ops arbitrary: j)
  case Nil
  then show ?case by simp
next
  case (Cons op ops)
  from applyOp_progress [OF Cons.prems, of ar stepUpdate op]
  have s: "progress j \<le> progress (applyOp ar stepUpdate op j)"
    and b: "progress (applyOp ar stepUpdate op j) \<le> 100"
    by simp_all
  from Cons.IH [OF b]
  have "sorted (map progress (applyOp ar stepUpdate op j # runOps ar stepUpdate ops (applyOp ar stepUpdate op j)))" .
  then show ?case using s by (simp add: Let_def) (meson order_trans)
qed

lemma succeed_progress:
  "fst (succeed msg k) = Inr () \<Longrightarrow> progress (snd (succeed msg k)) = 100"
  "fst (complete_with_errors msg k) = Inr () \<Longrightarrow> progress (snd (complete_with_errors msg k)) = 100"
  by (simp_all add: succeed_def complete_with_errors_def updateStatus_progress split: sum.splits)

text \<open>
  C5. For every Job (progress within the 0..100 of the data model, which \<^verbatim>\<open>validate\<close>
  enforces) and every sequence of public mutator and \<open>updateProgress\<close> calls, the
  progress never decreases from one call to the next; \<open>updateProgress\<close> either leaves
  the progress as it is or sets it to a value of at most 99; and \<open>updateStatus\<close> to
  successful or complete_with_errors, directly or through \<open>succeed\<close> or
  \<open>complete_with_errors\<close>, sets the progress to exactly 100.
\<close>

theorem progress_monotone:
  assumes "progress j \<le> 100"
  shows "sorted (map progress (j # runOps ar stepUpdate ops j))
     \<and> (progress (updateProgress ar stepUpdate loaded k) = progress k
         \<or> progress (updateProgress ar stepUpdate loaded k) \<le> 99)
     \<and> progress (updateStatus SUCCESSFUL msg k) = 100
     \<and> progress (updateStatus COMPLETE_WITH_ERRORS msg k) = 100
     \<and> (fst (succeed msg k) = Inr () \<longrightarrow> progress (snd (succeed msg k)) = 100)
     \<and> (fst (complete_with_errors msg k) = Inr () \<longrightarrow>
           progress (snd (complete_with_errors msg k)) = 100)"
  using runOps_sorted [OF assms] updateProgress_progress [of ar stepUpdate loaded k]
    succeed_progress [of msg k]
  by (auto simp add: updateStatus_progress)

lemma canTransition_simps:
  "canTransition RUNNING PAUSED EV_PAUSE" "canTransition PAUSED RUNNING EV_RESUME"
  "canTransition RUNNING SUCCESSFUL EV_COMPLETE" "\<not> canTransition SUCCESSFUL FAILED EV_FAIL"
  by (simp_all add: canTransition_def transition_def matches_def transitionActions_def)

lemma updateStatus_status: "status (updateStatus s m j) = s"
  by (simp add: updateStatus_def setMessage_def Let_def split: option.splits)

lemma applyMutator_status_progress:
  "status (snd (applyMutator m j)) =
     (if canTransition (status j) (mutatorTarget m) (mutatorEvent m) then mutatorTarget m else status j)
   \<and> progress (snd (applyMutator m j)) =
     (if canTransition (status j) (mutatorTarget m) (mutatorEvent m)
         \<and> (mutatorTarget m = SUCCESSFUL \<or> mutatorTarget m = COMPLETE_WITH_ERRORS)
      then 100 else progress j)"
  by (cases m)
     (simp_all add: pause_def resume_def skipPreview_def fail_def cancel_def succeed_def
        complete_with_errors_def validateTransition_def updateStatus_progress updateStatus_status Let_def)

lemma updateProgress_status: "status (updateProgress ar stepUpdate loaded j) = status j"
  using updateProgress_cases [of ar stepUpdate loaded j] by auto

theorem progress_monotone_witness:
  "\<forall>ar. progress (jobWith RUNNING None 0) \<le> 100
     \<and> sorted (map progress (jobWith RUNNING None 0 # runOps ar keepStep (sampleOps ar) (jobWith RUNNING None 0)))
     \<and> map status (runOps ar keepStep (sampleOps ar) (jobWith RUNNING None 0))
         = [RUNNING, PAUSED, RUNNING, RUNNING, SUCCESSFUL, SUCCESSFUL]
     \<and> map progress (drop 4 (runOps ar keepStep (sampleOps ar) (jobWith RUNNING None 0))) = [100, 100]
     \<and> fst (succeed None (jobWith RUNNING None 40)) = Inr ()
     \<and> progress (snd (succeed None (jobWith RUNNING None 40))) = 100"
proof
  fix ar :: "'a Arith"
  define j0 where "j0 = jobWith RUNNING None 0"
  define j1 where "j1 = applyOp ar keepStep (UpdateProgress [stepWith (num_one ar) (num_one ar)]) j0"
  define j2 where "j2 = applyOp ar keepStep (Mutate Pause) j1"
  define j3 where "j3 = applyOp ar keepStep (Mutate Resume) j2"
  define j4 where "j4 = applyOp ar keepStep (UpdateProgress [stepWith (num_one ar) (num_zero ar)]) j3"
  define j5 where "j5 = applyOp ar keepStep (Mutate (Succeed None)) j4"
  define j6 where "j6 = applyOp ar keepStep (Mutate (Fail None)) j5"
  have h: "progress j0 \<le> 100" by (simp add: j0_def jobWith_def)
  have p0: "status j0 = RUNNING" by (simp add: j0_def jobWith_def)
  have p1: "status j1 = RUNNING"
    using p0 by (simp add: j1_def updateProgress_status del: walkSteps.simps)
  have p2: "status j2 = PAUSED"
    using p1 applyMutator_status_progress [of "Pause" j1] by (simp add: j2_def canTransition_simps)
  have p3: "status j3 = RUNNING"
    using p2 applyMutator_status_progress [of "Resume" j2] by (simp add: j3_def canTransition_simps)
  have p4: "status j4 = RUNNING"
    using p3 by (simp add: j4_def updateProgress_status del: walkSteps.simps)
  have p5: "status j5 = SUCCESSFUL \<and> progress j5 = 100"
    using p4 applyMutator_status_progress [of "Succeed None" j4] by (simp add: j5_def canTransition_simps)
  have p6: "status j6 = SUCCESSFUL \<and> progress j6 = 100"
    using p5 applyMutator_status_progress [of "Fail None" j5] by (simp add: j6_def canTransition_simps)
  have r: "runOps ar keepStep (sampleOps ar) j0 = [j1, j2, j3, j4, j5, j6]"
    unfolding sampleOps_def j1_def j2_def j3_def j4_def j5_def j6_def
    by (simp only: runOps.simps Let_def)
  have e: "map status (runOps ar keepStep (sampleOps ar) j0)
             = [RUNNING, PAUSED, RUNNING, RUNNING, SUCCESSFUL, SUCCESSFUL]"
    "map progress (drop 4 (runOps ar keepStep (sampleOps ar) j0)) = [100, 100]"
    unfolding r using p1 p2 p3 p4 p5 p6 by simp_all
  have su: "fst (succeed None (jobWith RUNNING None 40)) = Inr ()"
    by (simp add: succeed_def validateTransition_def canTransition_simps jobWith_def)
  show "progress (jobWith RUNNING None 0) \<le> 100
     \<and> sorted (map progress (jobWith RUNNING None 0 # runOps ar keepStep (sampleOps ar) (jobWith RUNNING None 0)))
     \<and> map status (runOps ar keepStep (sampleOps ar) (jobWith RUNNING None 0))
         = [RUNNING, PAUSED, RUNNING, RUNNING, SUCCESSFUL, SUCCESSFUL]
     \<and> map progress (drop 4 (runOps ar keepStep (sampleOps ar) (jobWith RUNNING None 0))) = [100, 100]
     \<and> fst (succeed None (jobWith RUNNING None 40)) = Inr ()
     \<and> progress (snd (succeed None (jobWith RUNNING None 40))) = 100"
    using h e su
      progress_monotone [OF h, where ar = ar and stepUpdate = keepStep and ops = "sampleOps ar"
        and msg = None and k = "jobWith RUNNING None 40"]
    unfolding j0_def by blast
qed

section \<open>Properties of the fair dispatch queries\<close>

lemma readyUsernames_set: "set (readyUsernames table s) = {u. hasReady table s u}"
  by (auto simp add: readyUsernames_def hasReady_def)

lemma groupFor_fields:
  "g_username (groupFor table u) = u" "rc (groupFor table u) = sumRunning table u"
  "lw (groupFor table u) = maxLastWorked table u"
  by (simp_all add: groupFor_def sumRunning_def maxLastWorked_def Let_def)

lemma nextUserResults_set:
  "set (nextUserResults table s) = groupFor table ` {u. hasReady table s u}"
proof -
  have "set (map uw_username (filter (\<lambda>r. uw_username r \<in> set (readyUsernames table s)) table))
        = {u. hasReady table s u}"
    unfolding readyUsernames_set by (auto simp add: hasReady_def)
  then show ?thesis by (simp add: nextUserResults_def Let_def)
qed

lemma nextUserResults_sorted:
  "sorted (map (\<lambda>g. (rc g, lw g)) (nextUserResults table s))"
  by (simp add: nextUserResults_def Let_def)

lemma nextUser_head:
  assumes "nextUserResults table s = g # rest"
  shows "hasReady table s (g_username g) \<and> g = groupFor table (g_username g)
     \<and> (\<forall>v. hasReady table s v \<longrightarrow> (rc g, lw g) \<le> (sumRunning table v, maxLastWorked table v))"
proof -
  have "g \<in> set (nextUserResults table s)" using assms by simp
  then obtain u where u: "hasReady table s u" "g = groupFor table u"
    unfolding nextUserResults_set by auto
  have "(rc g, lw g) \<le> (sumRunning table v, maxLastWorked table v)" if "hasReady table s v" for v
  proof -
    have "groupFor table v \<in> set (nextUserResults table s)"
      unfolding nextUserResults_set using that by simp
    then have "groupFor table v = g \<or> groupFor table v \<in> set rest" using assms by auto
    moreover have "\<forall>x \<in> set rest. (rc g, lw g) \<le> (rc x, lw x)"
      using nextUserResults_sorted [of table s] unfolding assms by simp
    ultimately have "(rc g, lw g) \<le> (rc (groupFor table v), lw (groupFor table v))" by auto
    then show ?thesis by (simp only: groupFor_fields)
  qed
  then show ?thesis using u by (simp add: groupFor_fields)
qed

text \<open>
  C6. For every user_work table and every serviceID, \<open>getNextUsernameForWork\<close> does not
  throw; it returns no username exactly when no user has a row of that service with
  \<open>ready_count > 0\<close>; and a username it returns has such a row and is minimal among the
  users that have one: its sum of \<open>running_count\<close> is least, and among users with the
  same sum its maximal \<open>last_worked\<close> is least (oldest). So it never returns a user with
  zero ready items for the service.
\<close>

theorem getNextUsernameForWork_fair:
  "(\<exists>r. getNextUsernameForWork table s = Inr r)
   \<and> (getNextUsernameForWork table s = Inr None \<longleftrightarrow> (\<forall>v. \<not> hasReady table s v))
   \<and> (getNextUsernameForWork table s = Inr (Some u) \<longrightarrow>
        hasReady table s u
        \<and> (\<forall>v. hasReady table s v \<longrightarrow>
              sumRunning table u < sumRunning table v
              \<or> (sumRunning table u = sumRunning table v
                 \<and> maxLastWorked table u \<le> maxLastWorked table v)))"
proof (cases "nextUserResults table s")
  case Nil
  then have "{u. hasReady table s u} = {}"
    using nextUserResults_set [of table s] by simp
  then show ?thesis using Nil by (simp add: getNextUsernameForWork_def)
next
  case (Cons g rest)
  from nextUser_head [OF Cons]
  have h: "hasReady table s (g_username g)" and e: "g = groupFor table (g_username g)"
    and m: "\<And>v. hasReady table s v \<Longrightarrow> (rc g, lw g) \<le> (sumRunning table v, maxLastWorked table v)"
    by blast+
  have k: "rc g = sumRunning table (g_username g)" "lw g = maxLastWorked table (g_username g)"
    using e groupFor_fields by metis+
  have r: "getNextUsernameForWork table s = Inr (Some (g_username g))"
    using Cons by (simp add: getNextUsernameForWork_def)
  have "sumRunning table (g_username g) < sumRunning table v
        \<or> (sumRunning table (g_username g) = sumRunning table v
           \<and> maxLastWorked table (g_username g) \<le> maxLastWorked table v)" if "hasReady table s v" for v
    using m [OF that] unfolding k by (auto simp add: less_eq_prod_def less_le)
  then show ?thesis using r h by auto
qed

lemma scenarioS4_next: "getNextUsernameForWork scenarioS4 ''s'' = Inr (Some ''userB'')"
  by (simp add: getNextUsernameForWork_def nextUserResults_def readyUsernames_def groupFor_def
        scenarioS4_def Let_def)

theorem getNextUsernameForWork_fair_witness:
  "getNextUsernameForWork scenarioS4 ''s'' = Inr (Some ''userB'')
   \<and> hasReady scenarioS4 ''s'' ''userB''
   \<and> hasReady scenarioS4 ''s'' ''userA''
   \<and> sumRunning scenarioS4 ''userB'' = sumRunning scenarioS4 ''userA''
   \<and> maxLastWorked scenarioS4 ''userB'' \<le> maxLastWorked scenarioS4 ''userA''
   \<and> getNextUsernameForWork scenarioS4 ''t'' = Inr None"
proof -
  have a: "hasReady scenarioS4 ''s'' ''userA''"
    by (simp add: hasReady_def scenarioS4_def)
  have n: "\<not> sumRunning scenarioS4 ''userB'' < sumRunning scenarioS4 ''userA''"
    by (simp add: sumRunning_def scenarioS4_def)
  have t: "\<forall>v. \<not> hasReady scenarioS4 ''t'' v"
    by (simp add: hasReady_def scenarioS4_def)
  show ?thesis
    using scenarioS4_next a n t
      getNextUsernameForWork_fair [of scenarioS4 "''s''" "''userB''"]
      getNextUsernameForWork_fair [of scenarioS4 "''t''"]
    by blast
qed

lemma nextJobId_rows:
  "set (sort_key last_worked (filter (\<lambda>r. ready_count r > 0)
          (filter (\<lambda>r. uw_username r = u \<and> service_id r = s) table)))
   = {r \<in> set table. uw_username r = u \<and> service_id r = s \<and> 0 < ready_count r}"
  by auto

text \<open>
  C10. When no user_work row of the given username and serviceID has \<open>ready_count > 0\<close>,
  \<open>getNextJobIdForUsernameAndService\<close> throws a TypeError (it reads \<^verbatim>\<open>job_id\<close> of an
  undefined result) rather than returning a value; when such a row exists it returns the
  \<open>job_id\<close> of one. \<open>getNextUsernameForWork\<close>, when no user has a ready row for the
  service, returns \<^verbatim>\<open>undefined\<close> without throwing.
\<close>

theorem getNextJobId_throws_without_ready_row:
  "(\<not> hasReady table s u \<longrightarrow>
      getNextJobIdForUsernameAndService table s u =
        Inl (TypeError ''Cannot read properties of undefined (reading job_id)''))
   \<and> (hasReady table s u \<longrightarrow>
        (\<exists>r \<in> set table. uw_username r = u \<and> service_id r = s \<and> 0 < ready_count r
           \<and> getNextJobIdForUsernameAndService table s u = Inr (job_id r)))
   \<and> ((\<forall>v. \<not> hasReady table s v) \<longrightarrow> getNextUsernameForWork table s = Inr None)"
proof -
  define rows where "rows = sort_key last_worked (filter (\<lambda>r. ready_count r > 0)
          (filter (\<lambda>r. uw_username r = u \<and> service_id r = s) table))"
  have rs: "set rows = {r \<in> set table. uw_username r = u \<and> service_id r = s \<and> 0 < ready_count r}"
    unfolding rows_def by (rule nextJobId_rows)
  have g: "getNextJobIdForUsernameAndService table s u =
     (case rows of [] \<Rightarrow> Inl (TypeError ''Cannot read properties of undefined (reading job_id)'')
      | results # _ \<Rightarrow> Inr (job_id results))"
    by (simp only: getNextJobIdForUsernameAndService_def rows_def)
  have 1: "getNextJobIdForUsernameAndService table s u =
        Inl (TypeError ''Cannot read properties of undefined (reading job_id)'')" if "\<not> hasReady table s u"
  proof -
    have "set rows = {}" using that unfolding rs hasReady_def by auto
    then show ?thesis unfolding g by simp
  qed
  have 2: "\<exists>r \<in> set table. uw_username r = u \<and> service_id r = s \<and> 0 < ready_count r
           \<and> getNextJobIdForUsernameAndService table s u = Inr (job_id r)" if "hasReady table s u"
  proof (cases rows)
    case Nil
    then show ?thesis using that rs by (auto simp add: hasReady_def)
  next
    case (Cons r rest)
    then have "r \<in> set rows" by simp
    then show ?thesis using rs g Cons by auto
  qed
  have 3: "getNextUsernameForWork table s = Inr None" if "\<forall>v. \<not> hasReady table s v"
  proof -
    have "set (nextUserResults table s) = {}" unfolding nextUserResults_set using that by simp
    then show ?thesis by (simp add: getNextUsernameForWork_def)
  qed
  show ?thesis using 1 2 3 by blast
qed

theorem getNextJobId_throws_witness:
  "\<not> hasReady scenarioS4 ''t'' ''userC''
   \<and> getNextJobIdForUsernameAndService scenarioS4 ''t'' ''userC'' =
        Inl (TypeError ''Cannot read properties of undefined (reading job_id)'')
   \<and> getNextUsernameForWork scenarioS4 ''t'' = Inr None
   \<and> hasReady scenarioS4 ''s'' ''userA''
   \<and> getNextJobIdForUsernameAndService scenarioS4 ''s'' ''userA'' = Inr ''job-a''"
proof -
  have c: "\<not> hasReady scenarioS4 ''t'' ''userC''" and t: "\<forall>v. \<not> hasReady scenarioS4 ''t'' v"
    and a: "hasReady scenarioS4 ''s'' ''userA''"
    by (simp_all add: hasReady_def scenarioS4_def)
  have j: "getNextJobIdForUsernameAndService scenarioS4 ''s'' ''userA'' = Inr ''job-a''"
    by (simp add: getNextJobIdForUsernameAndService_def scenarioS4_def)
  show ?thesis
    using c t a j getNextJobId_throws_without_ready_row [of scenarioS4 "''t''" "''userC''"]
    by blast
qed

section \<open>Properties of the granule query loop\<close>

lemma querySourceLoop_done:
  "q_done st \<Longrightarrow> querySourceLoop env token source cmrQuery pageSize maxPages filePrefix st = Some (Inr (), st)"
  by (subst querySourceLoop.simps) simp

lemma querySourceLoop_first:
  "\<not> q_done st \<Longrightarrow>
   querySourceLoop env token source cmrQuery pageSize maxPages filePrefix st =
     (case cmrQueryGranules env (q_queries st) (collection source) cmrQuery token pageSize of
        Inl e \<Rightarrow> Some (Inl e, st\<lparr> q_queries := q_queries st + 1 \<rparr>)
      | Inr cmrResponse \<Rightarrow>
          Some (Inr (), st\<lparr> q_result := addCmrGranules cmrResponse filePrefix (q_result st),
                            q_page := q_page st + 1, q_done := True,
                            q_queries := q_queries st + 1 \<rparr>))"
  by (subst querySourceLoop.simps) (simp add: querySourceLoop_done split: sum.splits)

text \<open>
  C9. For every token, source, query location, pageSize and maxPages (above 1 and 0
  included), \<open>querySource\<close> terminates, and it runs its query loop exactly once: after
  the query file is read it issues one granule-page query and, when that query answers,
  returns the catalog of that one page; \<open>maxPages\<close> has no influence, because the loop
  sets \<^verbatim>\<open>done\<close> to true after the first iteration. (If reading the query file throws, no
  query is issued; if the query throws, it was the only one.)
\<close>

theorem querySource_single_query:
  "querySource env token source queryLocation pageSize maxPages filePrefix =
     Some (case readQueryFile env queryLocation of
             Inl e \<Rightarrow> (Inl e, 0)
           | Inr cmrQuery \<Rightarrow>
               (case cmrQueryGranules env 0 (collection source) cmrQuery token pageSize of
                  Inl e \<Rightarrow> (Inl e, 1)
                | Inr cmrResponse \<Rightarrow>
                    (Inr \<lparr> description = ''CMR Granules for '' @ collection source,
                           granules = map (\<lambda>g. (filePrefix, g)) cmrResponse \<rparr>, 1)))"
  by (simp add: querySource_def querySourceLoop_first addCmrGranules_def Let_def split: sum.splits)

theorem querySource_single_query_witness:
  "querySource sampleEnv ''token'' sampleSource ''file:///query.json'' 2000 5 ''./granule_0_'' =
     Some (Inr \<lparr> description = ''CMR Granules for C1-PROV'',
                 granules = [(''./granule_0_'', 0), (''./granule_0_'', 100)] \<rparr>, 1)
   \<and> querySource sampleEnv ''token'' sampleSource ''file:///query.json'' 2000 0 ''./granule_0_'' =
     Some (Inr \<lparr> description = ''CMR Granules for C1-PROV'',
                 granules = [(''./granule_0_'', 0), (''./granule_0_'', 100)] \<rparr>, 1)"
  using querySource_single_query [of sampleEnv "''token''" sampleSource "''file:///query.json''" 2000 5 "''./granule_0_''"]
        querySource_single_query [of sampleEnv "''token''" sampleSource "''file:///query.json''" 2000 0 "''./granule_0_''"]
  by (simp add: sampleEnv_def sampleSource_def)

section \<open>Properties of the work reaper\<close>

lemma reapable_iff:
  "jid \<in> set (reapableJobIds db now m [FAILED, SUCCESSFUL, CANCELED]) \<longleftrightarrow> reapable db now m jid"
  by (auto simp add: reapableJobIds_def reapable_def)

lemma delete_by_id_filter:
  assumes "distinct (map f xs)"
  shows "filter (\<lambda>w. f w \<notin> set (map f (filter R xs))) xs = filter (\<lambda>w. \<not> R w) xs"
proof (rule filter_cong [OF refl])
  fix w assume w: "w \<in> set xs"
  have inj: "inj_on f (set xs)" using assms by (simp add: distinct_map)
  have "f w \<in> f ` {x \<in> set xs. R x} \<longleftrightarrow> R w"
    using w inj by (auto simp add: inj_on_def)
  then show "(f w \<notin> set (map f (filter R xs))) = (\<not> R w)" by simp
qed

lemma logTo_rdb [simp]: "rdb (logTo e st) = rdb st"
  by (simp add: logTo_def)

lemma starts_logTo:
  "starts (rlog (logTo e st)) = (if e = LogInfo ''Starting work reaper'' then Suc (starts (rlog st)) else starts (rlog st))"
  by (simp add: starts_def logTo_def)

text \<open>What one half of the tick can do to its table.\<close>

lemma reapWorkflowSteps_effect:
  fixes tick m js st
  defines "res \<equiv> reapWorkflowSteps tick m js st"
  defines "ids \<equiv> getWorkflowStepIdsByJobUpdateAgeAndStatus (rdb st) (tick_now tick) m js"
  shows "jobs (rdb (snd res)) = jobs (rdb st)"
    and "work_items (rdb (snd res)) = work_items (rdb st)"
    and "workflow_steps (rdb (snd res)) = workflow_steps (rdb st)
         \<or> workflow_steps (rdb (snd res)) = filter (\<lambda>w. wfs_id w \<notin> set ids) (workflow_steps (rdb st))"
    and "getStepsError tick = None \<Longrightarrow> deleteStepsError tick = None \<Longrightarrow>
         fst res = Inr () \<and>
         workflow_steps (rdb (snd res)) = filter (\<lambda>w. wfs_id w \<notin> set ids) (workflow_steps (rdb st))"
    and "starts (rlog (snd res)) = starts (rlog st)"
  unfolding res_def ids_def
  by (auto simp add: reapWorkflowSteps_def deleteWorkflowStepsById_def Let_def starts_logTo
        split: option.splits)

lemma reapWork_effect:
  fixes tick m js st
  defines "res \<equiv> reapWork tick m js st"
  defines "ids \<equiv> getWorkItemIdsByJobUpdateAgeAndStatus (rdb st) (tick_now tick) m js"
  shows "jobs (rdb (snd res)) = jobs (rdb st)"
    and "work_items (rdb (snd res)) = work_items (rdb st)
         \<or> work_items (rdb (snd res)) = filter (\<lambda>w. wi_id w \<notin> set ids) (work_items (rdb st))"
    and "getItemsError tick = None \<Longrightarrow> deleteItemsError tick = None \<Longrightarrow>
         work_items (rdb (snd res)) = filter (\<lambda>w. wi_id w \<notin> set ids) (work_items (rdb st))"
    and "starts (rlog (snd res)) = starts (rlog st)"
  unfolding res_def ids_def
  by (auto simp add: reapWork_def deleteWorkItemsById_def Let_def
        reapWorkflowSteps_effect(1,2,5) starts_logTo
        split: option.splits)

lemma stepIds_cong:
  "jobs db' = jobs db \<Longrightarrow> workflow_steps db' = workflow_steps db \<Longrightarrow>
   getWorkflowStepIdsByJobUpdateAgeAndStatus db' now m js
     = getWorkflowStepIdsByJobUpdateAgeAndStatus db now m js"
  by (simp add: getWorkflowStepIdsByJobUpdateAgeAndStatus_def reapableJobIds_def)

lemma reapWork_cases:
  "(\<exists>e. reapWork tick m js st = (Inl e, st) \<and> \<not> noFaults tick)
   \<or> (\<exists>st1. jobs (rdb st1) = jobs (rdb st) \<and> workflow_steps (rdb st1) = workflow_steps (rdb st)
          \<and> reapWork tick m js st = reapWorkflowSteps tick m js st1)"
proof (cases "getItemsError tick")
  case (Some e)
  then show ?thesis by (simp add: reapWork_def noFaults_def)
next
  case None
  show ?thesis
  proof (cases "length (getWorkItemIdsByJobUpdateAgeAndStatus (rdb st) (tick_now tick) m js) \<noteq> 0")
    case False
    have "reapWork tick m js st = reapWorkflowSteps tick m js
            (logTo (LogInfo ''Work reaper did not find any work items to delete'') st)"
      using None False by (simp add: reapWork_def)
    then show ?thesis by (intro disjI2 exI [of _ "logTo (LogInfo ''Work reaper did not find any work items to delete'') st"]) simp
  next
    case True
    show ?thesis
    proof (cases "deleteItemsError tick")
      case (Some e)
      then show ?thesis using None True by (simp add: reapWork_def noFaults_def)
    next
      case d: None
      obtain n db' where del: "deleteWorkItemsById (rdb st)
            (getWorkItemIdsByJobUpdateAgeAndStatus (rdb st) (tick_now tick) m js) = (n, db')"
        by (cases "deleteWorkItemsById (rdb st) (getWorkItemIdsByJobUpdateAgeAndStatus (rdb st) (tick_now tick) m js)")
      have f: "jobs db' = jobs (rdb st)" "workflow_steps db' = workflow_steps (rdb st)"
        using del by (auto simp add: deleteWorkItemsById_def)
      have "reapWork tick m js st = reapWorkflowSteps tick m js
              (logTo (LogInfoCount ''Work reaper removed '' n '' work items'') (st\<lparr> rdb := db' \<rparr>))"
        using None True d del by (simp add: reapWork_def)
      then show ?thesis using f
        by (intro disjI2 exI [of _ "logTo (LogInfoCount ''Work reaper removed '' n '' work items'') (st\<lparr> rdb := db' \<rparr>)"]) simp
    qed
  qed
qed

lemma reapWork_steps:
  fixes tick m js st
  defines "res \<equiv> reapWork tick m js st"
  defines "ids \<equiv> getWorkflowStepIdsByJobUpdateAgeAndStatus (rdb st) (tick_now tick) m js"
  shows "workflow_steps (rdb (snd res)) = workflow_steps (rdb st)
         \<or> workflow_steps (rdb (snd res)) = filter (\<lambda>w. wfs_id w \<notin> set ids) (workflow_steps (rdb st))"
    and "noFaults tick \<Longrightarrow>
         workflow_steps (rdb (snd res)) = filter (\<lambda>w. wfs_id w \<notin> set ids) (workflow_steps (rdb st))"
proof -
  from reapWork_cases [of tick m js st]
  consider (fault) e where "reapWork tick m js st = (Inl e, st)" "\<not> noFaults tick"
    | (steps) st1 where "jobs (rdb st1) = jobs (rdb st)"
        "workflow_steps (rdb st1) = workflow_steps (rdb st)"
        "reapWork tick m js st = reapWorkflowSteps tick m js st1"
    by blast
  then have "(workflow_steps (rdb (snd res)) = workflow_steps (rdb st)
         \<or> workflow_steps (rdb (snd res)) = filter (\<lambda>w. wfs_id w \<notin> set ids) (workflow_steps (rdb st)))
     \<and> (noFaults tick \<longrightarrow>
         workflow_steps (rdb (snd res)) = filter (\<lambda>w. wfs_id w \<notin> set ids) (workflow_steps (rdb st)))"
  proof cases
    case fault
    then show ?thesis by (simp add: res_def)
  next
    case steps
    have i: "getWorkflowStepIdsByJobUpdateAgeAndStatus (rdb st1) (tick_now tick) m js = ids"
      unfolding ids_def by (rule stepIds_cong [OF steps(1,2)])
    show ?thesis
      using reapWorkflowSteps_effect(3) [of tick m js st1]
        reapWorkflowSteps_effect(4) [of tick m js st1]
      unfolding res_def steps(3) i steps(2) by (auto simp add: noFaults_def)
  qed
  then show "workflow_steps (rdb (snd res)) = workflow_steps (rdb st)
         \<or> workflow_steps (rdb (snd res)) = filter (\<lambda>w. wfs_id w \<notin> set ids) (workflow_steps (rdb st))"
    and "noFaults tick \<Longrightarrow>
         workflow_steps (rdb (snd res)) = filter (\<lambda>w. wfs_id w \<notin> set ids) (workflow_steps (rdb st))"
    by blast+
qed

lemma deleteTerminalWork_returns: "fst (deleteTerminalWork tick m js st) = Inr ()"
proof (cases "reapWork tick m js st")
  case (Pair r st')
  then show ?thesis by (cases r) (simp_all add: deleteTerminalWork_def)
qed

lemma deleteTerminalWork_rdb:
  "rdb (snd (deleteTerminalWork tick m js st)) = rdb (snd (reapWork tick m js st))"
proof (cases "reapWork tick m js st")
  case (Pair r st')
  then show ?thesis by (cases r) (simp_all add: deleteTerminalWork_def)
qed

lemma deleteTerminalWork_starts:
  "starts (rlog (snd (deleteTerminalWork tick m js st))) = starts (rlog st)"
proof (cases "reapWork tick m js st")
  case (Pair r st')
  then show ?thesis using reapWork_effect(4) [of tick m js st]
    by (cases r) (simp_all add: deleteTerminalWork_def starts_logTo)
qed

lemma start_continues:
  "fst (start m ticks st) = Inr () \<and> starts (rlog (snd (start m ticks st))) = starts (rlog st) + length ticks"
proof (induction ticks arbitrary: st)
  case Nil
  then show ?case by simp
next
  case (Cons tick later)
  define st1 where "st1 = snd (deleteTerminalWork tick m [FAILED, SUCCESSFUL, CANCELED]
                                 (logTo (LogInfo ''Starting work reaper'') st))"
  have s: "starts (rlog st1) = Suc (starts (rlog st))"
    by (simp add: st1_def deleteTerminalWork_starts starts_logTo)
  have e: "start m (tick # later) st = start m later st1"
    using deleteTerminalWork_returns [of tick m "[FAILED, SUCCESSFUL, CANCELED]" "logTo (LogInfo ''Starting work reaper'') st"]
    by (cases "deleteTerminalWork tick m [FAILED, SUCCESSFUL, CANCELED] (logTo (LogInfo ''Starting work reaper'') st)")
       (simp add: st1_def)
  show ?case unfolding e using Cons.IH [of st1] s by simp
qed

lemma itemIds_reapable:
  "getWorkItemIdsByJobUpdateAgeAndStatus db now m [FAILED, SUCCESSFUL, CANCELED]
     = map wi_id (filter (\<lambda>w. reapable db now m (wi_jobID w)) (work_items db))"
  by (simp only: getWorkItemIdsByJobUpdateAgeAndStatus_def reapable_iff)

lemma stepIds_reapable:
  "getWorkflowStepIdsByJobUpdateAgeAndStatus db now m [FAILED, SUCCESSFUL, CANCELED]
     = map wfs_id (filter (\<lambda>w. reapable db now m (wfs_jobID w)) (workflow_steps db))"
  by (simp only: getWorkflowStepIdsByJobUpdateAgeAndStatus_def reapable_iff)

text \<open>
  C8. On every Reaper tick (primary keys of work items and workflow steps distinct),
  \<open>deleteTerminalWork\<close> never throws, whatever store call fails; it leaves the jobs table
  alone; every work item and workflow step whose job is not both in one of failed,
  successful, canceled and last updated before the threshold is still there after the
  tick (so a running or complete_with_errors job of any age is untouched); when no store
  call fails, exactly the rows of the reapable jobs are deleted; an error thrown inside the
  tick is logged by the catch block; and \<open>start\<close> runs one tick for every iteration that
  finds the flag set, faults or not, without throwing.
\<close>

theorem reaper_tick:
  assumes "distinct (map wi_id (work_items (rdb st)))"
    and "distinct (map wfs_id (workflow_steps (rdb st)))"
  shows "fst (deleteTerminalWork tick m [FAILED, SUCCESSFUL, CANCELED] st) = Inr ()
     \<and> jobs (rdb (snd (deleteTerminalWork tick m [FAILED, SUCCESSFUL, CANCELED] st))) = jobs (rdb st)
     \<and> (\<forall>w \<in> set (work_items (rdb st)). \<not> reapable (rdb st) (tick_now tick) m (wi_jobID w) \<longrightarrow>
           w \<in> set (work_items (rdb (snd (deleteTerminalWork tick m [FAILED, SUCCESSFUL, CANCELED] st)))))
     \<and> (\<forall>w \<in> set (workflow_steps (rdb st)). \<not> reapable (rdb st) (tick_now tick) m (wfs_jobID w) \<longrightarrow>
           w \<in> set (workflow_steps (rdb (snd (deleteTerminalWork tick m [FAILED, SUCCESSFUL, CANCELED] st)))))
     \<and> (noFaults tick \<longrightarrow>
           work_items (rdb (snd (deleteTerminalWork tick m [FAILED, SUCCESSFUL, CANCELED] st)))
             = filter (\<lambda>w. \<not> reapable (rdb st) (tick_now tick) m (wi_jobID w)) (work_items (rdb st))
           \<and> workflow_steps (rdb (snd (deleteTerminalWork tick m [FAILED, SUCCESSFUL, CANCELED] st)))
             = filter (\<lambda>w. \<not> reapable (rdb st) (tick_now tick) m (wfs_jobID w)) (workflow_steps (rdb st)))
     \<and> (\<forall>e. fst (reapWork tick m [FAILED, SUCCESSFUL, CANCELED] st) = Inl e \<longrightarrow>
           rlog (snd (deleteTerminalWork tick m [FAILED, SUCCESSFUL, CANCELED] st))
             = rlog (snd (reapWork tick m [FAILED, SUCCESSFUL, CANCELED] st))
               @ [LogError ''Error attempting to delete terminal work items'', LogErrorObject e])
     \<and> fst (start m ticks st) = Inr ()
     \<and> starts (rlog (snd (start m ticks st))) = starts (rlog st) + length ticks"
proof -
  define js where "js = [FAILED, SUCCESSFUL, CANCELED]"
  define db' where "db' = rdb (snd (reapWork tick m js st))"
  have d: "rdb (snd (deleteTerminalWork tick m js st)) = db'"
    unfolding db'_def by (rule deleteTerminalWork_rdb)
  have fi: "filter (\<lambda>w. wi_id w \<notin> set (getWorkItemIdsByJobUpdateAgeAndStatus (rdb st) (tick_now tick) m js))
              (work_items (rdb st))
            = filter (\<lambda>w. \<not> reapable (rdb st) (tick_now tick) m (wi_jobID w)) (work_items (rdb st))"
    unfolding js_def itemIds_reapable by (rule delete_by_id_filter [OF assms(1)])
  have fs: "filter (\<lambda>w. wfs_id w \<notin> set (getWorkflowStepIdsByJobUpdateAgeAndStatus (rdb st) (tick_now tick) m js))
              (workflow_steps (rdb st))
            = filter (\<lambda>w. \<not> reapable (rdb st) (tick_now tick) m (wfs_jobID w)) (workflow_steps (rdb st))"
    unfolding js_def stepIds_reapable by (rule delete_by_id_filter [OF assms(2)])
  have j: "jobs db' = jobs (rdb st)"
    unfolding db'_def by (rule reapWork_effect(1))
  have i1: "work_items db' = work_items (rdb st)
        \<or> work_items db' = filter (\<lambda>w. \<not> reapable (rdb st) (tick_now tick) m (wi_jobID w)) (work_items (rdb st))"
    using reapWork_effect(2) [of tick m js st] unfolding db'_def fi .
  have i2: "work_items db' = filter (\<lambda>w. \<not> reapable (rdb st) (tick_now tick) m (wi_jobID w)) (work_items (rdb st))"
    if "noFaults tick"
    using reapWork_effect(3) [of tick m js st] that unfolding db'_def fi by (simp add: noFaults_def)
  have s1: "workflow_steps db' = workflow_steps (rdb st)
        \<or> workflow_steps db' = filter (\<lambda>w. \<not> reapable (rdb st) (tick_now tick) m (wfs_jobID w)) (workflow_steps (rdb st))"
    using reapWork_steps(1) [of tick m js st] unfolding db'_def fs .
  have s2: "workflow_steps db' = filter (\<lambda>w. \<not> reapable (rdb st) (tick_now tick) m (wfs_jobID w)) (workflow_steps (rdb st))"
    if "noFaults tick"
    using reapWork_steps(2) [of tick m js st] that unfolding db'_def fs by simp
  have k1: "\<forall>w \<in> set (work_items (rdb st)). \<not> reapable (rdb st) (tick_now tick) m (wi_jobID w) \<longrightarrow>
           w \<in> set (work_items db')"
    using i1 by auto
  have k2: "\<forall>w \<in> set (workflow_steps (rdb st)). \<not> reapable (rdb st) (tick_now tick) m (wfs_jobID w) \<longrightarrow>
           w \<in> set (workflow_steps db')"
    using s1 by auto
  have lg: "\<forall>e. fst (reapWork tick m js st) = Inl e \<longrightarrow>
           rlog (snd (deleteTerminalWork tick m js st))
             = rlog (snd (reapWork tick m js st))
               @ [LogError ''Error attempting to delete terminal work items'', LogErrorObject e]"
    by (cases "reapWork tick m js st") (simp add: deleteTerminalWork_def logTo_def)
  show ?thesis
    unfolding js_def [symmetric] d
    using deleteTerminalWork_returns [of tick m js st] j k1 k2 i2 s2 lg start_continues [of m ticks st]
    by blast
qed

theorem reaper_tick_witness:
  "map wi_id (work_items (rdb (snd (deleteTerminalWork quietTick 60 [FAILED, SUCCESSFUL, CANCELED] scenarioS6))))
     = [2, 3, 4]
   \<and> map wfs_id (workflow_steps (rdb (snd (deleteTerminalWork quietTick 60 [FAILED, SUCCESSFUL, CANCELED] scenarioS6))))
     = [2]
   \<and> fst (deleteTerminalWork brokenTick 60 [FAILED, SUCCESSFUL, CANCELED] scenarioS6) = Inr ()
   \<and> rlog (snd (deleteTerminalWork brokenTick 60 [FAILED, SUCCESSFUL, CANCELED] scenarioS6))
       = [LogError ''Error attempting to delete terminal work items'',
          LogErrorObject (StoreError ''connection lost'')]
   \<and> fst (start 60 [brokenTick, quietTick] scenarioS6) = Inr ()
   \<and> starts (rlog (snd (start 60 [brokenTick, quietTick] scenarioS6))) = 2"
proof -
  have d1: "distinct (map wi_id (work_items (rdb scenarioS6)))"
    and d2: "distinct (map wfs_id (workflow_steps (rdb scenarioS6)))"
    by (simp_all add: scenarioS6_def)
  have q: "noFaults quietTick" by (simp add: noFaults_def quietTick_def)
  have r: "reapable (rdb scenarioS6) (tick_now quietTick) 60 jid \<longleftrightarrow> jid = ''job-s''" for jid
    by (auto simp add: reapable_def scenarioS6_def quietTick_def)
  have s0: "starts (rlog scenarioS6) = 0" by (simp add: starts_def scenarioS6_def)
  have a: "map wi_id (filter (\<lambda>w. \<not> reapable (rdb scenarioS6) (tick_now quietTick) 60 (wi_jobID w))
              (work_items (rdb scenarioS6))) = [2, 3, 4]"
    unfolding r by (simp add: scenarioS6_def)
  have b: "map wfs_id (filter (\<lambda>w. \<not> reapable (rdb scenarioS6) (tick_now quietTick) 60 (wfs_jobID w))
              (workflow_steps (rdb scenarioS6))) = [2]"
    unfolding r by (simp add: scenarioS6_def)
  have ids: "getWorkItemIdsByJobUpdateAgeAndStatus (rdb scenarioS6) 12000000 60
               [FAILED, SUCCESSFUL, CANCELED] = [1, 5]"
    by (simp add: getWorkItemIdsByJobUpdateAgeAndStatus_def reapableJobIds_def scenarioS6_def)
  have br: "reapWork brokenTick 60 [FAILED, SUCCESSFUL, CANCELED] scenarioS6
              = (Inl (StoreError ''connection lost''), scenarioS6)"
    by (simp add: reapWork_def brokenTick_def Let_def ids)
  have l0: "rlog scenarioS6 = []" by (simp add: scenarioS6_def)
  show ?thesis
    using a b q s0 br l0
      reaper_tick [OF d1 d2, of quietTick 60 "[brokenTick, quietTick]"]
      reaper_tick [OF d1 d2, of brokenTick 60 "[]"]
    by simp
qed

end
